theory Spec2Isabelle
  imports Complex_Main "HOL-Library.Word"
begin

unbundle bit_operations_syntax

section \<open>Realtime audio session of the voice chat: the model\<close>

text \<open>
  The source is one TypeScript/React file. The voice chat lives in the helper functions
  \<^verbatim>\<open>decodeBase64\<close>, \<^verbatim>\<open>float32ToBase64\<close>, \<^verbatim>\<open>decodeAudioData\<close>, \<^verbatim>\<open>getApiKey\<close>, in the hook
  \<^verbatim>\<open>useLiveAPI\<close> (\<^verbatim>\<open>connect\<close>, \<^verbatim>\<open>disconnect\<close>, the \<^verbatim>\<open>onmessage\<close> callback) and in
  \<^verbatim>\<open>handleLiveTranscript\<close> of the home view.

  Conventions of the embedding.
  \<^item> A JavaScript number that is finite is a rational (\<open>rat\<close>). Every value of a
    \<^verbatim>\<open>Float32Array\<close> is a dyadic rational, and the products \<open>s * 0x8000\<close> and
    \<open>s * 0x7FFF\<close> of such a value with a 16-bit constant are exact in double precision, as
    is the quotient of a 16-bit integer by \<open>32768\<close>; so the codec is modelled exactly on
    finite samples. \<^verbatim>\<open>NaN\<close> and the infinities are outside the model. Clock times are
    rationals too; the rounding of \<open>startTime + buffer.duration\<close> is not modelled.
  \<^item> A byte is an \<open>8 word\<close>, an element of an \<^verbatim>\<open>Int16Array\<close> a \<open>16 word\<close>; an
    \<^verbatim>\<open>ArrayBuffer\<close> is a list of bytes. A \<^verbatim>\<open>Uint8Array\<close> that is passed between functions is a
    window on a buffer (\<open>uint8Array\<close>: the buffer, the offset and the length of the
    window); the typed arrays a function creates and keeps to itself are lists. A
    typed-array view of a buffer uses the byte order of the platform, which is
    little-endian on every platform a browser runs on.
  \<^item> A binary string (the argument of \<^verbatim>\<open>btoa\<close>, the result of \<^verbatim>\<open>atob\<close>) is the list of
    its character codes, each a byte. A text is a \<open>string\<close>.
  \<^item> An exception is a value of \<open>error\<close>; a function that may throw returns a sum.
  \<^item> Objects with identity (audio contexts, nodes, buffer sources, sessions) are natural
    numbers drawn from a counter of the state. What the code does to them (start, stop,
    disconnect, close) is appended to a log in the state.
\<close>

subsection \<open>Errors\<close>

text \<open>
  \<open>InvalidCharacterError\<close> is thrown by \<^verbatim>\<open>atob\<close>, \<open>RangeError\<close> by the \<^verbatim>\<open>Int16Array\<close>
  constructor, \<open>NotSupportedError\<close> by \<^verbatim>\<open>createBuffer\<close>. \<open>ApiKeyNotFound\<close> is the
  \<^verbatim>\<open>Error("API Key not found. ...")\<close> that \<^verbatim>\<open>connect\<close> throws, \<open>GetUserMediaFailed\<close> the
  rejection of \<^verbatim>\<open>getUserMedia\<close>.
\<close>

type_synonym byte = "8 word"
type_synonym int16 = "16 word"

datatype error =
    InvalidCharacterError
  | RangeError
  | NotSupportedError
  | ApiKeyNotFound
  | GetUserMediaFailed

subsection \<open>The platform's base64 functions\<close>

text \<open>
  \<^verbatim>\<open>btoa\<close> is base64 with the standard alphabet and padding. The binary strings it is
  given here come from \<^verbatim>\<open>String.fromCharCode\<close> on bytes, so it never throws.
\<close>

definition base64_alphabet :: string where
  "base64_alphabet = ''ABCDEFGHIJKLMNOPQRSTUVWXYZabcdefghijklmnopqrstuvwxyz0123456789+/''"

definition base64_char :: "nat \<Rightarrow> char" where
  "base64_char n = base64_alphabet ! n"

fun index_of :: "'a \<Rightarrow> 'a list \<Rightarrow> nat option" where
  "index_of c [] = None"
| "index_of c (x # xs) = (if c = x then Some 0 else map_option Suc (index_of c xs))"

definition base64_value :: "char \<Rightarrow> nat option" where
  "base64_value c = index_of c base64_alphabet"

fun btoa :: "byte list \<Rightarrow> string" where
  "btoa (a # b # c # rest) =
     [base64_char (unat a div 4),
      base64_char (unat a mod 4 * 16 + unat b div 16),
      base64_char (unat b mod 16 * 4 + unat c div 64),
      base64_char (unat c mod 64)] @ btoa rest"
| "btoa [a, b] =
     [base64_char (unat a div 4),
      base64_char (unat a mod 4 * 16 + unat b div 16),
      base64_char (unat b mod 16 * 4),
      CHR ''='']"
| "btoa [a] =
     [base64_char (unat a div 4),
      base64_char (unat a mod 4 * 16),
      CHR ''='', CHR ''='']"
| "btoa [] = []"

text \<open>
  \<^verbatim>\<open>atob\<close> is the forgiving base64 decoder of the platform: it removes ASCII whitespace;
  when the length is then a multiple of four it removes one or two trailing \<open>=\<close>; it
  throws when the length is then 1 modulo 4 or a character is outside the alphabet;
  it decodes four characters to three bytes and drops the bits left over at the end.
\<close>

definition ascii_whitespace :: "char \<Rightarrow> bool" where
  "ascii_whitespace c =
     (c = CHR 0x09 \<or> c = CHR 0x0A \<or> c = CHR 0x0C \<or> c = CHR 0x0D \<or> c = CHR '' '')"

definition strip_padding :: "string \<Rightarrow> string" where
  "strip_padding d =
     (if d \<noteq> [] \<and> length d mod 4 = 0 \<and> last d = CHR ''=''
      then (if last (butlast d) = CHR ''='' then butlast (butlast d) else butlast d)
      else d)"

fun sextets_to_bytes :: "nat list \<Rightarrow> byte list" where
  "sextets_to_bytes (p # q # r # t # rest) =
     [of_nat (p * 4 + q div 16), of_nat (q mod 16 * 16 + r div 4), of_nat (r mod 4 * 64 + t)]
       @ sextets_to_bytes rest"
| "sextets_to_bytes [p, q, r] = [of_nat (p * 4 + q div 16), of_nat (q mod 16 * 16 + r div 4)]"
| "sextets_to_bytes [p, q] = [of_nat (p * 4 + q div 16)]"
| "sextets_to_bytes [p] = []"
| "sextets_to_bytes [] = []"

definition atob :: "string \<Rightarrow> error + byte list" where
  "atob data =
     (let d = strip_padding (filter (\<lambda>c. \<not> ascii_whitespace c) data) in
      if length d mod 4 = 1 then Inl InvalidCharacterError
      else case those (map base64_value d) of
             None \<Rightarrow> Inl InvalidCharacterError
           | Some v \<Rightarrow> Inr (sextets_to_bytes v))"

text \<open>The six-bit groups of a byte string, before they are written as characters.\<close>

fun unpadded :: "byte list \<Rightarrow> nat list" where
  "unpadded (a # b # c # rest) =
     [unat a div 4, unat a mod 4 * 16 + unat b div 16,
      unat b mod 16 * 4 + unat c div 64, unat c mod 64] @ unpadded rest"
| "unpadded [a, b] = [unat a div 4, unat a mod 4 * 16 + unat b div 16, unat b mod 16 * 4]"
| "unpadded [a] = [unat a div 4, unat a mod 4 * 16]"
| "unpadded [] = []"

subsection \<open>\<^verbatim>\<open>decodeBase64\<close>\<close>

text \<open>
  \<^verbatim>\<open>
  function decodeBase64(base64: string): Uint8Array {
    const binaryString = atob(base64);
    const len = binaryString.length;
    const bytes = new Uint8Array(len);
    for (let i = 0; i < len; i++) { bytes[i] = binaryString.charCodeAt(i); }
    return bytes;
  }\<close>
\<close>

text \<open>
  \<^verbatim>\<open>new Uint8Array(len)\<close> allocates a buffer of \<open>len\<close> zero bytes and covers it (\<open>whole\<close>);
  a store at an index outside the window is ignored.
\<close>

record uint8Array =
  arrayBuffer :: "byte list"
  byteOffset :: nat
  byteLength :: nat

definition whole :: "byte list \<Rightarrow> uint8Array" where
  "whole bytes = \<lparr>arrayBuffer = bytes, byteOffset = 0, byteLength = length bytes\<rparr>"

definition new_Uint8Array :: "nat \<Rightarrow> uint8Array" where
  "new_Uint8Array len = whole (replicate len 0)"

definition store_byte :: "uint8Array \<Rightarrow> nat \<Rightarrow> byte \<Rightarrow> uint8Array" where
  "store_byte a i v =
     (if i < byteLength a
      then a\<lparr>arrayBuffer := (arrayBuffer a)[byteOffset a + i := v]\<rparr>
      else a)"

definition decodeBase64 :: "string \<Rightarrow> error + uint8Array" where
  "decodeBase64 base64 =
     (case atob base64 of
        Inl e \<Rightarrow> Inl e
      | Inr binaryString \<Rightarrow>
          let len = length binaryString;
              bytes = new_Uint8Array len
          in Inr (fold (\<lambda>i bytes. store_byte bytes i (binaryString ! i)) [0..<len] bytes))"

subsection \<open>\<^verbatim>\<open>float32ToBase64\<close>\<close>

text \<open>
  \<^verbatim>\<open>
  function float32ToBase64(data: Float32Array): string {
    const l = data.length;
    const int16 = new Int16Array(l);
    for (let i = 0; i < l; i++) {
      const s = Math.max(-1, Math.min(1, data[i]));
      int16[i] = s < 0 ? s * 0x8000 : s * 0x7FFF;
    }
    let binary = '';
    const bytes = new Uint8Array(int16.buffer);
    const len = bytes.byteLength;
    for (let i = 0; i < len; i++) { binary += String.fromCharCode(bytes[i]); }
    return btoa(binary);
  }\<close>
  A store into an \<^verbatim>\<open>Int16Array\<close> converts the number with the language's \<^verbatim>\<open>ToInt16\<close>:
  truncation towards zero, then reduction modulo \<open>2 ^ 16\<close> into the signed range.
\<close>

definition trunc :: "rat \<Rightarrow> int" where
  "trunc x = (if x < 0 then - \<lfloor>- x\<rfloor> else \<lfloor>x\<rfloor>)"

definition toInt16 :: "rat \<Rightarrow> int16" where
  "toInt16 x = word_of_int (trunc x)"

definition clamp :: "rat \<Rightarrow> rat" where
  "clamp x = max (- 1) (min 1 x)"

definition pcm16 :: "rat \<Rightarrow> int16" where
  "pcm16 x = (let s = clamp x in toInt16 (if s < 0 then s * 32768 else s * 32767))"

definition int16_bytes :: "int16 \<Rightarrow> byte list" where
  "int16_bytes w = [ucast w, ucast (drop_bit 8 w)]"

definition int16_of_bytes :: "byte \<Rightarrow> byte \<Rightarrow> int16" where
  "int16_of_bytes lo hi = ucast lo OR push_bit 8 (ucast hi)"

definition float32ToBase64 :: "rat list \<Rightarrow> string" where
  "float32ToBase64 data =
     (let l = length data;
          int16 = fold (\<lambda>i a. a[i := pcm16 (data ! i)]) [0..<l] (replicate l 0);
          bytes = concat (map int16_bytes int16);
          len = length bytes;
          binary = fold (\<lambda>i b. b @ [bytes ! i]) [0..<len] []
      in btoa binary)"

subsection \<open>\<^verbatim>\<open>decodeAudioData\<close>\<close>

text \<open>
  \<^verbatim>\<open>
  async function decodeAudioData(data: Uint8Array, ctx: AudioContext,
      sampleRate: number = 24000, numChannels: number = 1): Promise<AudioBuffer> {
    const dataInt16 = new Int16Array(data.buffer);
    const frameCount = dataInt16.length / numChannels;
    const buffer = ctx.createBuffer(numChannels, frameCount, sampleRate);
    for (let channel = 0; channel < numChannels; channel++) {
      const channelData = buffer.getChannelData(channel);
      for (let i = 0; i < frameCount; i++) {
        channelData[i] = dataInt16[i * numChannels + channel] / 32768.0;
      }
    }
    return buffer;
  }\<close>
  \<^verbatim>\<open>data.buffer\<close> is the whole buffer under \<open>data\<close>, whatever the offset and the length of
  the window \<open>data\<close>: the function reads \<open>arrayBuffer data\<close> and nothing else of \<open>data\<close>. For
  an array that covers its buffer, as the result of \<^verbatim>\<open>decodeBase64\<close> does, these are the
  bytes of the array.

  The platform functions, as their standards define them:
  \<^item> \<^verbatim>\<open>new Int16Array(buffer)\<close> throws a \<^verbatim>\<open>RangeError\<close> when the byte length of the buffer
    is odd, and otherwise views each pair of bytes as one element.
  \<^item> \<^verbatim>\<open>createBuffer(numberOfChannels, length, sampleRate)\<close> converts \<open>length\<close> to an
    unsigned 32-bit integer (truncation, modulo \<open>2 ^ 32\<close>) and throws a
    \<^verbatim>\<open>NotSupportedError\<close> when an argument is zero or outside its nominal range. The
    nominal ranges of the channel count and of the sample rate are defined by the
    implementation; the standard obliges every implementation to accept 1 to 32
    channels and 8000 to 96000 Hz. How far the ranges of a platform go beyond that is
    a parameter of the model, carried by the audio context (\<open>contextLimits\<close>): so many
    channels more than 32, so many Hz below 8000 and above 96000. An upper limit of
    the length, which a platform may have for want of memory, is not modelled. The
    buffer is created filled with zeros.
  \<^item> With \<open>numChannels = 0\<close> the quotient \<open>frameCount\<close> is not finite; \<^verbatim>\<open>createBuffer\<close> then
    throws for the channel count, whatever the value of \<open>frameCount\<close> (in the model the
    quotient by zero is \<open>0\<close>).
  \<^item> A store to a typed array at an index outside it is ignored; a read outside it gives
    \<^verbatim>\<open>undefined\<close>, which divided by \<open>32768\<close> is \<^verbatim>\<open>NaN\<close>. In \<open>store_sample\<close> the read is
    outside \<open>dataInt16\<close> only when the store is outside \<open>channelData\<close> (lemma
    \<open>store_index_in_range\<close>), so no \<^verbatim>\<open>NaN\<close> is ever stored.
\<close>

record audioBuffer =
  numberOfChannels :: nat
  frameLength :: nat
  sampleRate :: nat
  channelData :: "rat list list"

definition duration :: "audioBuffer \<Rightarrow> rat" where
  "duration b = of_nat (frameLength b) / of_nat (sampleRate b)"

fun int16_view :: "byte list \<Rightarrow> int16 list" where
  "int16_view (lo # hi # rest) = int16_of_bytes lo hi # int16_view rest"
| "int16_view [b] = []"
| "int16_view [] = []"

definition new_Int16Array :: "byte list \<Rightarrow> error + int16 list" where
  "new_Int16Array bytes = (if odd (length bytes) then Inl RangeError else Inr (int16_view bytes))"

definition toUint32 :: "rat \<Rightarrow> nat" where
  "toUint32 x = nat (trunc x mod 2 ^ 32)"

record limits =
  extraChannels :: nat
  ratesBelow :: nat
  ratesAbove :: nat

record audioContext =
  contextId :: nat
  contextLimits :: limits

definition maxChannels :: "audioContext \<Rightarrow> nat" where
  "maxChannels ctx = 32 + extraChannels (contextLimits ctx)"

definition minRate :: "audioContext \<Rightarrow> nat" where
  "minRate ctx = 8000 - ratesBelow (contextLimits ctx)"

definition maxRate :: "audioContext \<Rightarrow> nat" where
  "maxRate ctx = 96000 + ratesAbove (contextLimits ctx)"

definition createBuffer :: "audioContext \<Rightarrow> nat \<Rightarrow> rat \<Rightarrow> nat \<Rightarrow> error + audioBuffer" where
  "createBuffer ctx numChannels len rate =
     (let n = toUint32 len in
      if numChannels = 0 \<or> maxChannels ctx < numChannels \<or> n = 0 \<or>
         rate = 0 \<or> rate < minRate ctx \<or> maxRate ctx < rate
      then Inl NotSupportedError
      else Inr \<lparr>numberOfChannels = numChannels, frameLength = n, sampleRate = rate,
                channelData = replicate numChannels (replicate n 0)\<rparr>)"

definition store_sample :: "int16 list \<Rightarrow> rat list \<Rightarrow> nat \<Rightarrow> nat \<Rightarrow> rat list" where
  "store_sample dataInt16 cd i j =
     (if i < length cd \<and> j < length dataInt16
      then cd[i := of_int (sint (dataInt16 ! j)) / 32768]
      else cd)"

definition fill_channel :: "int16 list \<Rightarrow> nat \<Rightarrow> rat \<Rightarrow> nat \<Rightarrow> rat list \<Rightarrow> rat list" where
  "fill_channel dataInt16 numChannels frameCount channel cd0 =
     fold (\<lambda>i cd. store_sample dataInt16 cd i (i * numChannels + channel))
       [0..<nat \<lceil>frameCount\<rceil>] cd0"

definition decodeAudioData ::
    "uint8Array \<Rightarrow> audioContext \<Rightarrow> nat \<Rightarrow> nat \<Rightarrow> error + audioBuffer" where
  "decodeAudioData data ctx rate numChannels =
     (case new_Int16Array (arrayBuffer data) of
        Inl e \<Rightarrow> Inl e
      | Inr dataInt16 \<Rightarrow>
          let frameCount = of_nat (length dataInt16) / of_nat numChannels in
          case createBuffer ctx numChannels frameCount rate of
            Inl e \<Rightarrow> Inl e
          | Inr buffer \<Rightarrow>
              Inr (fold (\<lambda>channel buf.
                     buf\<lparr>channelData := (channelData buf)
                       [channel := fill_channel dataInt16 numChannels frameCount channel
                                     (channelData buf ! channel)]\<rparr>)
                   [0..<numChannels] buffer))"


subsection \<open>The hook's state\<close>

text \<open>
  \<^verbatim>\<open>ChatMessage\<close> of \<^verbatim>\<open>types.ts\<close>, the fields of a \<^verbatim>\<open>LiveServerMessage\<close> that \<^verbatim>\<open>onmessage\<close>
  reads (\<^verbatim>\<open>serverContent?.inputTranscription?.text\<close>, \<^verbatim>\<open>serverContent?.outputTranscription?.text\<close>,
  \<^verbatim>\<open>serverContent?.modelTurn?.parts?.[0]?.inlineData?.data\<close>, \<^verbatim>\<open>serverContent?.interrupted\<close>),
  and the state of \<^verbatim>\<open>useLiveAPI\<close> together with the \<^verbatim>\<open>chatHistory\<close> of the home view that
  its transcript callback writes. An absent field is \<open>None\<close>.

  \<open>scheduledSourcesRef\<close> is a JavaScript \<^verbatim>\<open>Set\<close> of buffer sources: a list of their
  identities in insertion order. \<open>started\<close> logs every \<^verbatim>\<open>source.start(startTime)\<close> with the
  duration of the source's buffer, \<open>stopped\<close> every \<^verbatim>\<open>source.stop()\<close>, \<open>disconnectedNodes\<close>
  every \<^verbatim>\<open>node.disconnect()\<close>, \<open>closedContexts\<close> every \<^verbatim>\<open>audioContext.close()\<close>.

  \<open>env\<close> is what \<^verbatim>\<open>connect\<close> finds: the two places an API key can be configured in, whether
  \<^verbatim>\<open>getUserMedia\<close> grants the microphone, and the limits of the platform's audio contexts.
\<close>

datatype speaker = User | Model

record chatMessage =
  role :: speaker
  content :: string

record message =
  inputTranscription :: "string option"
  outputTranscription :: "string option"
  audioData :: "string option"
  interrupted :: bool

record scheduled =
  sourceNode :: nat
  startTime :: rat
  bufferDuration :: rat

record env =
  viteApiKey :: "string option"
  processApiKey :: "string option"
  microphone :: bool
  platformLimits :: limits

record state =
  isConnected :: bool
  isError :: bool
  audioContextRef :: "audioContext option"
  inputSourceRef :: "nat option"
  processorRef :: "nat option"
  nextStartTimeRef :: rat
  scheduledSourcesRef :: "nat list"
  sessionRef :: "nat option"
  chatHistory :: "chatMessage list"
  started :: "scheduled list"
  stopped :: "nat list"
  disconnectedNodes :: "nat list"
  closedContexts :: "nat list"
  nextId :: nat

text \<open>The initial values of \<^verbatim>\<open>useState\<close> and \<^verbatim>\<open>useRef\<close> in the hook and the home view.\<close>

definition initial_state :: state where
  "initial_state =
     \<lparr>isConnected = False, isError = False, audioContextRef = None, inputSourceRef = None,
      processorRef = None, nextStartTimeRef = 0, scheduledSourcesRef = [], sessionRef = None,
      chatHistory = [], started = [], stopped = [], disconnectedNodes = [],
      closedContexts = [], nextId = 0\<rparr>"

definition set_add :: "nat \<Rightarrow> nat list \<Rightarrow> nat list" where
  "set_add x xs = (if x \<in> set xs then xs else xs @ [x])"

definition set_delete :: "nat \<Rightarrow> nat list \<Rightarrow> nat list" where
  "set_delete x xs = removeAll x xs"

subsection \<open>\<^verbatim>\<open>getApiKey\<close>\<close>

text \<open>
  \<^verbatim>\<open>
  let key = '';
  if (import.meta.env.VITE_API_KEY) { key = import.meta.env.VITE_API_KEY; }
  if (!key) { if (process.env.API_KEY) { key = process.env.API_KEY; } }
  return key || undefined;\<close>
  The empty string is falsy.
\<close>

definition getApiKey :: "env \<Rightarrow> string option" where
  "getApiKey e =
     (let key = (case viteApiKey e of Some k \<Rightarrow> k | None \<Rightarrow> []);
          key = (if key = [] then (case processApiKey e of Some k \<Rightarrow> k | None \<Rightarrow> []) else key)
      in if key = [] then None else Some key)"

subsection \<open>\<^verbatim>\<open>disconnect\<close>\<close>

text \<open>
  \<^verbatim>\<open>
  // 1. Close session
  if (sessionRef.current) { sessionRef.current = null; }
  // 2. Stop Audio Input
  if (inputSourceRef.current) { inputSourceRef.current.disconnect(); inputSourceRef.current = null; }
  if (processorRef.current) { processorRef.current.disconnect(); processorRef.current = null; }
  // 3. Stop Audio Output
  scheduledSourcesRef.current.forEach(source => { try { source.stop(); } catch (e) { /* ignore */ } });
  scheduledSourcesRef.current.clear();
  nextStartTimeRef.current = 0;
  if (audioContextRef.current) { audioContextRef.current.close(); audioContextRef.current = null; }
  setIsConnected(false);\<close>
  The first step is commented "Close session", but the session is only dropped: the code
  calls no method of it, here or anywhere else, so the connection stays open and its
  callbacks keep firing.
\<close>

definition disconnect :: "state \<Rightarrow> state" where
  "disconnect s =
     (let s = (case sessionRef s of Some _ \<Rightarrow> s\<lparr>sessionRef := None\<rparr> | None \<Rightarrow> s);
          s = (case inputSourceRef s of
                 Some n \<Rightarrow> s\<lparr>disconnectedNodes := disconnectedNodes s @ [n], inputSourceRef := None\<rparr>
               | None \<Rightarrow> s);
          s = (case processorRef s of
                 Some n \<Rightarrow> s\<lparr>disconnectedNodes := disconnectedNodes s @ [n], processorRef := None\<rparr>
               | None \<Rightarrow> s);
          s = s\<lparr>stopped := stopped s @ scheduledSourcesRef s\<rparr>;
          s = s\<lparr>scheduledSourcesRef := []\<rparr>;
          s = s\<lparr>nextStartTimeRef := 0\<rparr>;
          s = (case audioContextRef s of
                 Some c \<Rightarrow> s\<lparr>closedContexts := closedContexts s @ [contextId c],
                              audioContextRef := None\<rparr>
               | None \<Rightarrow> s)
      in s\<lparr>isConnected := False\<rparr>)"

subsection \<open>\<^verbatim>\<open>connect\<close>\<close>

text \<open>
  \<^verbatim>\<open>
  try {
    setIsError(false);
    const ctx = new AudioContextClass({ sampleRate: 24000 });
    audioContextRef.current = ctx;
    const apiKey = getApiKey();
    if (!apiKey) throw new Error("API Key not found. Please add VITE_API_KEY to Vercel.");
    const ai = new GoogleGenAI({ apiKey });
    const stream = await navigator.mediaDevices.getUserMedia({ audio: { ... } });
    const inputCtx = new AudioContextClass({ sampleRate: 16000 });
    const source = inputCtx.createMediaStreamSource(stream);
    const processor = inputCtx.createScriptProcessor(4096, 1, 1);
    inputSourceRef.current = source;
    processorRef.current = processor;
    ...
    const sessionPromise = ai.live.connect({ ..., callbacks: { onopen, onmessage, onclose, onerror } });
    sessionPromise.then(session => { sessionRef.current = session; ... });
  } catch (err) {
    console.error("Connection failed", err);
    setIsError(true);
    setIsConnected(false);
  }\<close>
  \<open>connect_try\<close> is the body of the \<^verbatim>\<open>try\<close>: it returns the exception thrown, if any, with
  the state at that point (what was assigned before the throw stays assigned).
  \<open>connect\<close> adds the \<^verbatim>\<open>catch\<close>; it returns a state and throws nothing. The callbacks that
  the session fires later are the events of \<open>fire\<close> below.
\<close>

definition connect_try :: "env \<Rightarrow> state \<Rightarrow> error option \<times> state" where
  "connect_try e s =
     (let s = s\<lparr>isError := False\<rparr>;
          ctx = \<lparr>contextId = nextId s, contextLimits = platformLimits e\<rparr>;
          s = s\<lparr>audioContextRef := Some ctx, nextId := Suc (nextId s)\<rparr>
      in if getApiKey e = None then (Some ApiKeyNotFound, s)
         else if \<not> microphone e then (Some GetUserMediaFailed, s)
         else let source = nextId s; processor = Suc (nextId s)
              in (None, s\<lparr>inputSourceRef := Some source, processorRef := Some processor,
                            nextId := Suc (Suc (nextId s))\<rparr>))"

definition connect :: "env \<Rightarrow> state \<Rightarrow> state" where
  "connect e s =
     (case connect_try e s of
        (None, s') \<Rightarrow> s'
      | (Some err, s') \<Rightarrow> s'\<lparr>isError := True, isConnected := False\<rparr>)"

subsection \<open>\<^verbatim>\<open>handleLiveTranscript\<close> and \<^verbatim>\<open>onmessage\<close>\<close>

text \<open>
  \<^verbatim>\<open>
  const handleLiveTranscript = useCallback((text: string, isUser: boolean) => {
    setChatHistory(prev => [...prev, { role: isUser ? 'user' : 'model', content: text }]);
    ...
  }, []);\<close>
\<close>

definition handleLiveTranscript :: "string \<Rightarrow> bool \<Rightarrow> state \<Rightarrow> state" where
  "handleLiveTranscript text isUser s =
     s\<lparr>chatHistory := chatHistory s @ [\<lparr>role = (if isUser then User else Model), content = text\<rparr>]\<rparr>"

text \<open>
  \<^verbatim>\<open>
  onmessage: async (message: LiveServerMessage) => {
    if (message.serverContent?.inputTranscription?.text) {
      onTranscript(message.serverContent.inputTranscription.text, true);
    }
    if (message.serverContent?.outputTranscription?.text) {
      onTranscript(message.serverContent.outputTranscription.text, false);
    }
    const audioData = message.serverContent?.modelTurn?.parts?.[0]?.inlineData?.data;
    if (audioData && audioContextRef.current) {
      const buffer = await decodeAudioData(decodeBase64(audioData), audioContextRef.current);
      const source = audioContextRef.current.createBufferSource();
      source.buffer = buffer;
      source.connect(audioContextRef.current.destination);
      const currentTime = audioContextRef.current.currentTime;
      const startTime = Math.max(currentTime, nextStartTimeRef.current);
      source.start(startTime);
      nextStartTimeRef.current = startTime + buffer.duration;
      scheduledSourcesRef.current.add(source);
      source.onended = () => scheduledSourcesRef.current.delete(source);
    }
    if (message.serverContent?.interrupted) {
      scheduledSourcesRef.current.forEach(s => { try { s.stop(); } catch(e){} });
      scheduledSourcesRef.current.clear();
      nextStartTimeRef.current = 0;
    }
  }\<close>
  The empty string is falsy, so a transcription or an audio payload with empty text is
  treated as absent; the audio block runs when the payload is not empty and
  \<open>audioContextRef\<close> holds a context, which it then uses. \<open>currentTime\<close>, the reading of
  the output clock, is an input of the model. When \<^verbatim>\<open>decodeBase64\<close> or \<^verbatim>\<open>decodeAudioData\<close> throws, the promise of the handler is
  rejected and the rest of its body does not run: \<open>onmessage\<close> returns the exception with
  the state reached, in which the transcriptions have been appended.
\<close>

definition handle_transcriptions :: "message \<Rightarrow> state \<Rightarrow> state" where
  "handle_transcriptions m s =
     (let s = (case inputTranscription m of
                 Some text \<Rightarrow> if text \<noteq> [] then handleLiveTranscript text True s else s
               | None \<Rightarrow> s)
      in case outputTranscription m of
           Some text \<Rightarrow> if text \<noteq> [] then handleLiveTranscript text False s else s
         | None \<Rightarrow> s)"

definition schedule_audio :: "string \<Rightarrow> audioContext \<Rightarrow> rat \<Rightarrow> state \<Rightarrow> error + state" where
  "schedule_audio audio ctx currentTime s =
     (case decodeBase64 audio of
        Inl e \<Rightarrow> Inl e
      | Inr bytes \<Rightarrow>
          (case decodeAudioData bytes ctx 24000 1 of
             Inl e \<Rightarrow> Inl e
           | Inr buffer \<Rightarrow>
               let source = nextId s;
                   s = s\<lparr>nextId := Suc source\<rparr>;
                   startTime = max currentTime (nextStartTimeRef s);
                   s = s\<lparr>started := started s @
                          [\<lparr>sourceNode = source, startTime = startTime,
                            bufferDuration = duration buffer\<rparr>]\<rparr>;
                   s = s\<lparr>nextStartTimeRef := startTime + duration buffer\<rparr>
               in Inr (s\<lparr>scheduledSourcesRef := set_add source (scheduledSourcesRef s)\<rparr>)))"

definition handle_interruption :: "message \<Rightarrow> state \<Rightarrow> state" where
  "handle_interruption m s =
     (if interrupted m
      then let s = s\<lparr>stopped := stopped s @ scheduledSourcesRef s\<rparr>;
               s = s\<lparr>scheduledSourcesRef := []\<rparr>
           in s\<lparr>nextStartTimeRef := 0\<rparr>
      else s)"

definition onmessage :: "message \<Rightarrow> rat \<Rightarrow> state \<Rightarrow> error option \<times> state" where
  "onmessage m currentTime s =
     (let s = handle_transcriptions m s in
      case (case audioData m of
              Some audio \<Rightarrow>
                (case audioContextRef s of
                   Some ctx \<Rightarrow>
                     if audio \<noteq> [] then schedule_audio audio ctx currentTime s else Inr s
                 | None \<Rightarrow> Inr s)
            | None \<Rightarrow> Inr s) of
        Inl e \<Rightarrow> (Some e, s)
      | Inr s \<Rightarrow> (None, handle_interruption m s))"

subsection \<open>Events\<close>

text \<open>
  What can happen to the hook: an inbound message handled at a clock reading; the end of
  a scheduled source (\<^verbatim>\<open>source.onended\<close>); the session callbacks \<^verbatim>\<open>onopen\<close>, \<^verbatim>\<open>onclose\<close>,
  \<^verbatim>\<open>onerror\<close>; the resolution of \<^verbatim>\<open>sessionPromise\<close>; a call of \<^verbatim>\<open>connect\<close> or \<^verbatim>\<open>disconnect\<close>.
  None of the callbacks tests whether the session it belongs to is still the current one.
\<close>

datatype event =
    Message message rat
  | Ended nat
  | Open
  | Close
  | Failure
  | SessionResolved nat
  | Connect env
  | Disconnect

fun fire :: "event \<Rightarrow> state \<Rightarrow> state" where
  "fire (Message m currentTime) s = snd (onmessage m currentTime s)"
| "fire (Ended source) s = s\<lparr>scheduledSourcesRef := set_delete source (scheduledSourcesRef s)\<rparr>"
| "fire Open s = s\<lparr>isConnected := True\<rparr>"
| "fire Close s = s\<lparr>isConnected := False\<rparr>"
| "fire Failure s = s\<lparr>isError := True, isConnected := False\<rparr>"
| "fire (SessionResolved session) s = s\<lparr>sessionRef := Some session\<rparr>"
| "fire (Connect e) s = connect e s"
| "fire Disconnect s = disconnect s"

definition run :: "event list \<Rightarrow> state \<Rightarrow> state" where
  "run evs s = fold fire evs s"

text \<open>
  An event that does not reset the output clock offset: anything but a message with the
  interruption flag and a call of \<^verbatim>\<open>disconnect\<close>.
\<close>

fun no_reset :: "event \<Rightarrow> bool" where
  "no_reset (Message m currentTime) = (\<not> interrupted m)"
| "no_reset Disconnect = False"
| "no_reset _ = True"

text \<open>A callback, as opposed to a call of \<^verbatim>\<open>connect\<close> or \<^verbatim>\<open>disconnect\<close> by the user interface.\<close>

fun is_callback :: "event \<Rightarrow> bool" where
  "is_callback (Connect e) = False"
| "is_callback Disconnect = False"
| "is_callback _ = True"

text \<open>The sources started between two states of one run.\<close>

definition newly :: "state \<Rightarrow> state \<Rightarrow> scheduled list" where
  "newly s s' = drop (length (started s)) (started s')"

text \<open>
  The transcript fragments a message carries, as entries of the conversation: the
  user's, if its text is not empty, then the model's, if its text is not empty.
\<close>

definition fragments :: "message \<Rightarrow> chatMessage list" where
  "fragments m =
     (case inputTranscription m of
        Some text \<Rightarrow> if text \<noteq> [] then [\<lparr>role = User, content = text\<rparr>] else []
      | None \<Rightarrow> [])
     @ (case outputTranscription m of
          Some text \<Rightarrow> if text \<noteq> [] then [\<lparr>role = Model, content = text\<rparr>] else []
        | None \<Rightarrow> [])"

fun event_fragments :: "event \<Rightarrow> chatMessage list" where
  "event_fragments (Message m currentTime) = fragments m"
| "event_fragments _ = []"

text \<open>
  The capture callback \<^verbatim>\<open>processor.onaudioprocess\<close> is not an event: it writes nothing of
  the state above (it encodes the frame with \<^verbatim>\<open>float32ToBase64\<close> and hands it to the session
  object captured when \<^verbatim>\<open>sessionPromise\<close> resolved).
\<close>

text \<open>An audio context of a platform that accepts the obligatory ranges and no more.\<close>

definition plain_context :: "nat \<Rightarrow> audioContext" where
  "plain_context n =
     \<lparr>contextId = n, contextLimits = \<lparr>extraChannels = 0, ratesBelow = 0, ratesAbove = 0\<rparr>\<rparr>"

text \<open>A message with no field set.\<close>

definition silent :: message where
  "silent = \<lparr>inputTranscription = None, outputTranscription = None, audioData = None,
              interrupted = False\<rparr>"


section \<open>Lemmas about the model\<close>

subsection \<open>Iteration in closed form\<close>

lemma fold_update_map:
  "n \<le> length xs \<Longrightarrow> fold (\<lambda>i a. a[i := g i]) [0..<n] xs = map g [0..<n] @ drop n xs"
proof (induction n)
  case 0
  then show ?case by simp
next
  case (Suc n)
  then have n: "n < length xs" by simp
  have "fold (\<lambda>i a. a[i := g i]) [0..<Suc n] xs = (map g [0..<n] @ drop n xs)[n := g n]"
    using Suc by simp
  also have "\<dots> = map g [0..<n] @ (drop n xs)[0 := g n]"
    by (simp add: list_update_append)
  also have "drop n xs = xs ! n # drop (Suc n) xs"
    using n by (simp add: Cons_nth_drop_Suc)
  finally show ?case by simp
qed

lemma fold_snoc_nth:
  "n \<le> length xs \<Longrightarrow> fold (\<lambda>i b. b @ [xs ! i]) [0..<n] ys = ys @ take n xs"
proof (induction n)
  case 0
  then show ?case by simp
next
  case (Suc n)
  then show ?case by (simp add: take_Suc_conv_app_nth)
qed

lemma float32ToBase64_eq:
  "float32ToBase64 data = btoa (concat (map (\<lambda>x. int16_bytes (pcm16 x)) data))"
proof -
  have "fold (\<lambda>i a. a[i := pcm16 (data ! i)]) [0..<length data] (replicate (length data) 0)
        = map (\<lambda>i. pcm16 (data ! i)) [0..<length data]"
    by (simp add: fold_update_map)
  also have "\<dots> = map pcm16 data"
    by (rule nth_equalityI) simp_all
  finally show ?thesis
    by (simp add: float32ToBase64_def Let_def fold_snoc_nth comp_def)
qed

lemma whole_fields [simp]:
  "arrayBuffer (whole bs) = bs" "byteOffset (whole bs) = 0" "byteLength (whole bs) = length bs"
  by (simp_all add: whole_def)

lemma store_byte_whole: "i < length ys \<Longrightarrow> store_byte (whole ys) i v = whole (ys[i := v])"
  by (simp add: store_byte_def whole_def)

lemma store_byte_fold:
  "n \<le> length xs \<Longrightarrow>
   fold (\<lambda>i a. store_byte a i (g i)) [0..<n] (whole xs) = whole (map g [0..<n] @ drop n xs)"
proof (induction n)
  case 0
  then show ?case by simp
next
  case (Suc n)
  then have n: "n < length xs" by simp
  have "fold (\<lambda>i a. store_byte a i (g i)) [0..<Suc n] (whole xs)
      = store_byte (whole (map g [0..<n] @ drop n xs)) n (g n)"
    using Suc by simp
  also have "\<dots> = whole ((map g [0..<n] @ drop n xs)[n := g n])"
    using n by (simp add: store_byte_whole)
  also have "(map g [0..<n] @ drop n xs)[n := g n] = map g [0..<n] @ (drop n xs)[0 := g n]"
    by (simp add: list_update_append)
  also have "drop n xs = xs ! n # drop (Suc n) xs"
    using n by (simp add: Cons_nth_drop_Suc)
  finally show ?case by simp
qed

lemma decodeBase64_eq:
  "decodeBase64 s = (case atob s of Inl e \<Rightarrow> Inl e | Inr b \<Rightarrow> Inr (whole b))"
proof (cases "atob s")
  case (Inl e)
  then show ?thesis by (simp add: decodeBase64_def)
next
  case (Inr b)
  have "fold (\<lambda>i bytes. store_byte bytes i (b ! i)) [0..<length b] (whole (replicate (length b) 0))
      = whole (map ((!) b) [0..<length b])"
    by (simp add: store_byte_fold)
  then show ?thesis using Inr by (simp add: decodeBase64_def new_Uint8Array_def Let_def map_nth)
qed

lemma index_of_nth: "distinct xs \<Longrightarrow> n < length xs \<Longrightarrow> index_of (xs ! n) xs = Some n"
proof (induction xs arbitrary: n)
  case Nil
  then show ?case by simp
next
  case (Cons x xs)
  show ?case
  proof (cases n)
    case 0
    then show ?thesis by simp
  next
    case (Suc m)
    with Cons.prems have "xs ! m \<in> set xs" "x \<notin> set xs" by auto
    then have "xs ! m \<noteq> x" by auto
    with Suc Cons show ?thesis by simp
  qed
qed

lemma distinct_base64_alphabet: "distinct base64_alphabet"
  unfolding base64_alphabet_def by simp

lemma length_base64_alphabet: "length base64_alphabet = 64"
  unfolding base64_alphabet_def by simp

lemma base64_value_char: "n < 64 \<Longrightarrow> base64_value (base64_char n) = Some n"
  by (simp add: base64_value_def base64_char_def index_of_nth distinct_base64_alphabet
      length_base64_alphabet)

lemma base64_char_in: "n < 64 \<Longrightarrow> base64_char n \<in> set base64_alphabet"
  by (simp add: base64_char_def length_base64_alphabet)

lemma base64_char_plain:
  assumes "n < 64"
  shows "base64_char n \<noteq> CHR ''=''" and "\<not> ascii_whitespace (base64_char n)"
proof -
  have "CHR ''='' \<notin> set base64_alphabet" "\<forall>c\<in>set base64_alphabet. \<not> ascii_whitespace c"
    unfolding base64_alphabet_def ascii_whitespace_def by simp_all
  with base64_char_in [OF assms] show "base64_char n \<noteq> CHR ''=''" "\<not> ascii_whitespace (base64_char n)"
    by auto
qed

lemma unat_byte_less: "unat (a :: byte) < 256"
  using unsigned_less [of a, where 'a = nat] by simp

lemma sextet_bounds_nat:
  fixes a b c :: nat
  assumes "a < 256" "b < 256" "c < 256"
  shows "a div 4 < 64" "a mod 4 * 16 + b div 16 < 64"
    "b mod 16 * 4 + c div 64 < 64" "c mod 64 < 64"
    "a mod 4 * 16 < 64" "b mod 16 * 4 < 64"
  using assms by simp_all

lemmas sextet_bounds = sextet_bounds_nat [OF unat_byte_less unat_byte_less unat_byte_less]

lemma unpadded_bound: "\<forall>n\<in>set (unpadded bs). n < 64"
  by (induction bs rule: unpadded.induct) (simp_all add: sextet_bounds)

lemma those_base64: "\<forall>n\<in>set ns. n < 64 \<Longrightarrow> those (map base64_value (map base64_char ns)) = Some ns"
  by (induction ns) (simp_all add: base64_value_char)

lemma filter_plain: "\<forall>n\<in>set ns. n < 64 \<Longrightarrow> filter (\<lambda>c. \<not> ascii_whitespace c) (map base64_char ns) = map base64_char ns"
  by (induction ns) (simp_all add: base64_char_plain)

subsection \<open>Base64: decoding undoes encoding\<close>

lemma regroup_nat:
  fixes a b c :: nat
  assumes "a < 256" "b < 256" "c < 256"
  shows "a div 4 * 4 + (a mod 4 * 16 + b div 16) div 16 = a"
    and "(a mod 4 * 16 + b div 16) mod 16 * 16 + (b mod 16 * 4 + c div 64) div 4 = b"
    and "(b mod 16 * 4 + c div 64) mod 4 * 64 + c mod 64 = c"
    and "a div 4 * 4 + (a mod 4 * 16) div 16 = a"
    and "(a mod 4 * 16 + b div 16) mod 16 * 16 + (b mod 16 * 4) div 4 = b"
proof -
  have b: "b div 16 div 16 = 0" "b div 16 mod 16 = b div 16"
    using assms(2) by (simp_all add: div_mult2_eq [symmetric] less_mult_imp_div_less)
  have c: "c div 64 div 4 = 0" "c div 64 mod 4 = c div 64"
    using assms(3) by (simp_all add: div_mult2_eq [symmetric] less_mult_imp_div_less)
  show "a div 4 * 4 + (a mod 4 * 16 + b div 16) div 16 = a"
    by (simp add: b)
  show "(a mod 4 * 16 + b div 16) mod 16 * 16 + (b mod 16 * 4 + c div 64) div 4 = b"
    by (simp add: b c)
  show "(b mod 16 * 4 + c div 64) mod 4 * 64 + c mod 64 = c"
    by (simp add: c)
  show "a div 4 * 4 + (a mod 4 * 16) div 16 = a"
    by simp
  show "(a mod 4 * 16 + b div 16) mod 16 * 16 + (b mod 16 * 4) div 4 = b"
    by (simp add: b)
qed

lemma of_nat_unat_byte: "of_nat (unat (a :: byte)) = a"
  by simp

lemma sextets_unpadded: "sextets_to_bytes (unpadded bs) = bs"
  by (induction bs rule: unpadded.induct)
     (simp_all only: unpadded.simps sextets_to_bytes.simps append.simps of_nat_unat_byte
        regroup_nat [OF unat_byte_less unat_byte_less unat_byte_less])

lemma length_unpadded: "length (unpadded bs) mod 4 \<noteq> Suc 0"
  by (induction bs rule: unpadded.induct) simp_all

lemma length_btoa: "length (btoa bs) mod 4 = 0"
  by (induction bs rule: btoa.induct) simp_all

lemma strip_padding_append:
  assumes "length y mod 4 = 0" "y \<noteq> []" "length x mod 4 = 0"
  shows "strip_padding (x @ y) = x @ strip_padding y"
proof -
  from assms have "length y \<noteq> 0" by simp
  with assms have "4 \<le> length y" by presburger
  then have "butlast y \<noteq> []" by (cases y rule: rev_cases) auto
  then show ?thesis using assms
    by (simp add: strip_padding_def butlast_append last_append mod_add_eq [symmetric])
qed

lemma btoa_Nil_iff: "btoa bs = [] \<longleftrightarrow> bs = []"
  by (induction bs rule: btoa.induct) simp_all

lemma strip_padding_btoa: "strip_padding (btoa bs) = map base64_char (unpadded bs)"
proof (induction bs rule: btoa.induct)
  case (1 a b c rest)
  show ?case
  proof (cases "rest = []")
    case True
    then show ?thesis
      by (simp add: strip_padding_def base64_char_plain sextet_bounds)
  next
    case False
    then have "btoa rest \<noteq> []" by (simp add: btoa_Nil_iff)
    then have "strip_padding ([base64_char (unat a div 4),
      base64_char (unat a mod 4 * 16 + unat b div 16),
      base64_char (unat b mod 16 * 4 + unat c div 64),
      base64_char (unat c mod 64)] @ btoa rest) = [base64_char (unat a div 4),
      base64_char (unat a mod 4 * 16 + unat b div 16),
      base64_char (unat b mod 16 * 4 + unat c div 64),
      base64_char (unat c mod 64)] @ strip_padding (btoa rest)"
      by (intro strip_padding_append) (simp_all add: length_btoa)
    with 1 show ?thesis by simp
  qed
next
  case (2 a b)
  then show ?case by (simp add: strip_padding_def base64_char_plain sextet_bounds)
next
  case (3 a)
  then show ?case by (simp add: strip_padding_def base64_char_plain sextet_bounds)
next
  case 4
  then show ?case by (simp add: strip_padding_def)
qed

lemma btoa_plain: "filter (\<lambda>c. \<not> ascii_whitespace c) (btoa bs) = btoa bs"
proof -
  have eq: "\<not> ascii_whitespace (CHR ''='')" by (simp add: ascii_whitespace_def)
  show ?thesis
    by (induction bs rule: btoa.induct) (simp_all add: base64_char_plain sextet_bounds eq)
qed

lemma atob_btoa: "atob (btoa bs) = Inr bs"
  by (simp add: atob_def Let_def btoa_plain strip_padding_btoa length_unpadded
      those_base64 unpadded_bound sextets_unpadded del: map_map)

subsection \<open>Sixteen-bit samples\<close>

lemma int16_of_bytes_inverse: "int16_of_bytes (ucast w) (ucast (drop_bit 8 w)) = w"
  unfolding int16_of_bytes_def
  by (rule bit_word_eqI) (auto simp: bit_simps)

lemma int16_view_bytes: "int16_view (concat (map int16_bytes ws)) = ws"
  by (induction ws) (simp_all add: int16_bytes_def int16_of_bytes_inverse)

lemma length_int16_bytes: "length (concat (map int16_bytes ws)) = 2 * length ws"
  by (induction ws) (simp_all add: int16_bytes_def)

lemma new_Int16Array_bytes: "new_Int16Array (concat (map int16_bytes ws)) = Inr ws"
  by (simp add: new_Int16Array_def length_int16_bytes int16_view_bytes)

lemma length_int16_view: "length (int16_view bs) = length bs div 2"
  by (induction bs rule: int16_view.induct) simp_all

lemma int16_view_nth:
  "2 * j + 1 < length bs \<Longrightarrow> int16_view bs ! j = int16_of_bytes (bs ! (2 * j)) (bs ! (2 * j + 1))"
proof (induction bs arbitrary: j rule: int16_view.induct)
  case (1 lo hi rest)
  then show ?case by (cases j) simp_all
qed simp_all

lemma sint_toInt16: "- 32768 \<le> trunc x \<Longrightarrow> trunc x \<le> 32767 \<Longrightarrow> sint (toInt16 x) = trunc x"
  unfolding toInt16_def
  by (simp add: sint_sbintrunc' signed_take_bit_int_eq_self)

lemma clamp_range: "- 1 \<le> clamp x" "clamp x \<le> 1"
  by (simp_all add: clamp_def)

lemma trunc_neg: "x < 0 \<Longrightarrow> trunc x = \<lceil>x\<rceil>"
  by (simp add: trunc_def ceiling_def)

lemma trunc_nonneg: "0 \<le> x \<Longrightarrow> trunc x = \<lfloor>x\<rfloor>"
  by (simp add: trunc_def)

lemma sint_pcm16:
  "sint (pcm16 x) = (if clamp x < 0 then \<lceil>clamp x * 32768\<rceil> else \<lfloor>clamp x * 32767\<rfloor>)"
proof (cases "clamp x < 0")
  case True
  then have neg: "clamp x * 32768 < 0" by (simp add: mult_neg_pos)
  have "- 32768 \<le> clamp x * 32768" using clamp_range(1) [of x] by simp
  then have lo: "- 32768 \<le> \<lceil>clamp x * 32768\<rceil>" by (simp add: le_ceiling_iff)
  have "\<lceil>clamp x * 32768\<rceil> \<le> 0" using neg by (simp add: ceiling_le_iff)
  then have hi: "\<lceil>clamp x * 32768\<rceil> \<le> 32767" by simp
  show ?thesis using True lo hi
    by (simp add: pcm16_def Let_def sint_toInt16 trunc_neg [OF neg])
next
  case False
  then have nn: "0 \<le> clamp x * 32767" by simp
  have "clamp x * 32767 \<le> 32767" using clamp_range(2) [of x] by simp
  then have hi: "\<lfloor>clamp x * 32767\<rfloor> \<le> 32767" by (simp add: floor_le_iff)
  have "0 \<le> \<lfloor>clamp x * 32767\<rfloor>" using nn by simp
  then have lo: "- 32768 \<le> \<lfloor>clamp x * 32767\<rfloor>" by simp
  show ?thesis using False lo hi
    by (simp add: pcm16_def Let_def sint_toInt16 trunc_nonneg [OF nn])
qed

lemma sint_pcm16_range: "- 32768 \<le> sint (pcm16 x)" "sint (pcm16 x) \<le> 32767"
  using sint_range_size [of "pcm16 x"] by (simp_all add: word_size)

lemma quant_bound:
  assumes "- 1 \<le> x" "x \<le> 1"
  shows "\<bar>of_int (sint (pcm16 x)) / 32768 - x\<bar> < 2 / 32768"
proof -
  have cx: "clamp x = x" using assms by (simp add: clamp_def)
  show ?thesis
  proof (cases "x < 0")
    case True
    have "of_int \<lceil>x * 32768\<rceil> - x * 32768 < (1::rat)" "x * 32768 \<le> of_int \<lceil>x * 32768\<rceil>"
      by linarith+
    then have "\<bar>of_int \<lceil>x * 32768\<rceil> / 32768 - x\<bar> < 1 / 32768"
      by (simp add: field_simps abs_less_iff)
    with True cx show ?thesis by (simp add: sint_pcm16)
  next
    case False
    define f :: rat where "f = of_int \<lfloor>x * 32767\<rfloor>"
    have "x * 32767 - f < 1" "f \<le> x * 32767"
      unfolding f_def by linarith+
    with assms False have "- 2 < f - x * 32768" "f - x * 32768 < 2"
      by linarith+
    then have "\<bar>f / 32768 - x\<bar> < 2 / 32768"
      by (simp add: field_simps abs_less_iff)
    then have "\<bar>of_int \<lfloor>x * 32767\<rfloor> / 32768 - x\<bar> < 2 / 32768"
      by (simp add: f_def)
    with False cx show ?thesis by (simp add: sint_pcm16)
  qed
qed

subsection \<open>The playback decoder in closed form\<close>

lemma toUint32_frames:
  assumes "L < 2 ^ 32"
  shows "toUint32 (of_nat L / of_nat n) = L div n"
proof -
  have "(0::rat) \<le> of_nat L / of_nat n" by simp
  then have "trunc (of_nat L / of_nat n) = int (L div n)"
    by (simp add: trunc_nonneg floor_divide_of_nat_eq)
  moreover have "L div n < 2 ^ 32"
    using assms div_le_dividend [of L n] by (rule le_less_trans [rotated])
  then have "int (L div n) mod 2 ^ 32 = int (L div n)"
    by (simp add: zmod_int [symmetric] del: of_nat_div)
  ultimately show ?thesis by (simp add: toUint32_def del: of_nat_div)
qed

lemma store_loop:
  assumes "\<forall>i<length cd0. g i < length d"
  shows "fold (\<lambda>i cd. store_sample d cd i (g i)) [0..<k] cd0
       = map (\<lambda>i. of_int (sint (d ! g i)) / 32768) [0..<min k (length cd0)]
           @ drop (min k (length cd0)) cd0"
proof (induction k)
  case 0
  then show ?case by simp
next
  case (Suc k)
  show ?case
  proof (cases "k < length cd0")
    case True
    then have m: "min k (length cd0) = k" "min (Suc k) (length cd0) = Suc k" by simp_all
    have d: "drop k cd0 = cd0 ! k # drop (Suc k) cd0"
      using True by (simp add: Cons_nth_drop_Suc)
    have gk: "g k < length d" using assms True by simp
    define R where "R = fold (\<lambda>i cd. store_sample d cd i (g i)) [0..<k] cd0"
    have R: "R = map (\<lambda>i. of_int (sint (d ! g i)) / 32768) [0..<k] @ drop k cd0"
      using Suc by (simp add: R_def m)
    then have "length R = length cd0" using True by simp
    then have "store_sample d R k (g k) = R[k := of_int (sint (d ! g k)) / 32768]"
      using True gk by (simp add: store_sample_def)
    also have "\<dots> = map (\<lambda>i. of_int (sint (d ! g i)) / 32768) [0..<k]
                   @ (drop k cd0)[0 := of_int (sint (d ! g k)) / 32768]"
      unfolding R by (simp add: list_update_append)
    also have "\<dots> = map (\<lambda>i. of_int (sint (d ! g i)) / 32768) [0..<Suc k] @ drop (Suc k) cd0"
      by (simp add: d)
    finally show ?thesis by (simp add: R_def m)
  next
    case False
    then have m: "min k (length cd0) = length cd0" "min (Suc k) (length cd0) = length cd0"
      by simp_all
    show ?thesis using Suc False by (simp add: m store_sample_def)
  qed
qed

lemma fill_channel_eq:
  assumes "length cd0 = L div n" "c < n" "L = length d"
  shows "fill_channel d n (of_nat L / of_nat n) c cd0
       = map (\<lambda>i. of_int (sint (d ! (i * n + c))) / 32768) [0..<L div n]"
proof -
  have idx: "\<forall>i<length cd0. i * n + c < length d"
  proof (intro allI impI)
    fix i assume "i < length cd0"
    then have "Suc i \<le> L div n" using assms(1) by simp
    then have "Suc i * n \<le> L div n * n" by (rule mult_le_mono1)
    also have "\<dots> \<le> L" by simp
    finally show "i * n + c < length d" using assms(2,3) by simp
  qed
  have "int (L div n) = \<lfloor>(of_nat L / of_nat n :: rat)\<rfloor>"
    by (simp add: floor_divide_of_nat_eq del: of_nat_div)
  also have "\<dots> \<le> \<lceil>(of_nat L / of_nat n :: rat)\<rceil>"
    by (rule floor_le_ceiling)
  finally have "L div n \<le> nat \<lceil>(of_nat L / of_nat n :: rat)\<rceil>" by linarith
  then have "min (nat \<lceil>(of_nat L / of_nat n :: rat)\<rceil>) (length cd0) = length cd0"
    using assms(1) by simp
  then show ?thesis
    unfolding fill_channel_def store_loop [OF idx] using assms(1) by simp
qed

lemma channel_loop:
  assumes "k \<le> length (channelData buf)"
  shows "fold (\<lambda>channel b. b\<lparr>channelData := (channelData b)[channel := h channel (channelData b ! channel)]\<rparr>)
           [0..<k] buf
       = buf\<lparr>channelData := map (\<lambda>c. h c (channelData buf ! c)) [0..<k] @ drop k (channelData buf)\<rparr>"
  using assms
proof (induction k)
  case 0
  then show ?case by simp
next
  case (Suc k)
  then have k: "k < length (channelData buf)" by simp
  have d: "drop k (channelData buf) = channelData buf ! k # drop (Suc k) (channelData buf)"
    using k by (simp add: Cons_nth_drop_Suc)
  show ?case using Suc k
    by (simp add: list_update_append nth_append d)
qed

lemma decodeAudioData_eq:
  assumes "length (arrayBuffer data) < 2 ^ 32"
  shows "decodeAudioData data ctx rate n =
    (if odd (length (arrayBuffer data)) then Inl RangeError
     else if n = 0 \<or> maxChannels ctx < n \<or> length (arrayBuffer data) div 2 div n = 0 \<or>
             rate = 0 \<or> rate < minRate ctx \<or> maxRate ctx < rate
       then Inl NotSupportedError
     else Inr \<lparr>numberOfChannels = n, frameLength = length (arrayBuffer data) div 2 div n, sampleRate = rate,
        channelData = map (\<lambda>c. map (\<lambda>i. of_int (sint (int16_view (arrayBuffer data) ! (i * n + c))) / 32768)
                                 [0..<length (arrayBuffer data) div 2 div n]) [0..<n]\<rparr>)"
proof (cases "odd (length (arrayBuffer data))")
  case True
  then show ?thesis by (simp add: decodeAudioData_def new_Int16Array_def)
next
  case False
  define d where "d = int16_view (arrayBuffer data)"
  define L where "L = length d"
  have L: "L = length (arrayBuffer data) div 2" by (simp add: L_def d_def length_int16_view)
  then have "L < 2 ^ 32" using assms by simp
  then have u: "toUint32 (of_nat L / of_nat n) = L div n" by (rule toUint32_frames)
  show ?thesis
  proof (cases "n = 0 \<or> maxChannels ctx < n \<or> L div n = 0 \<or>
               rate = 0 \<or> rate < minRate ctx \<or> maxRate ctx < rate")
    case True
    then show ?thesis using False u
      by (simp add: decodeAudioData_def new_Int16Array_def createBuffer_def Let_def
          d_def [symmetric] L_def [symmetric] L [symmetric] del: of_nat_div)
  next
    case ok: False
    let ?buf = "\<lparr>numberOfChannels = n, frameLength = L div n, sampleRate = rate,
                channelData = replicate n (replicate (L div n) (0::rat))\<rparr>"
    have cb: "createBuffer ctx n (of_nat L / of_nat n) rate = Inr ?buf"
      using ok u by (simp add: createBuffer_def Let_def del: of_nat_div)
    have "fold (\<lambda>channel b. b\<lparr>channelData := (channelData b)
                 [channel := fill_channel d n (of_nat L / of_nat n) channel (channelData b ! channel)]\<rparr>)
            [0..<n] ?buf
        = ?buf\<lparr>channelData := map (\<lambda>c. fill_channel d n (of_nat L / of_nat n) c (channelData ?buf ! c)) [0..<n]
               @ drop n (channelData ?buf)\<rparr>"
      by (rule channel_loop) simp
    also have "map (\<lambda>c. fill_channel d n (of_nat L / of_nat n) c (channelData ?buf ! c)) [0..<n]
        = map (\<lambda>c. map (\<lambda>i. of_int (sint (d ! (i * n + c))) / 32768) [0..<L div n]) [0..<n]"
      by (rule map_cong) (simp_all add: fill_channel_eq L_def del: of_nat_div)
    finally show ?thesis using False ok cb
      by (simp add: decodeAudioData_def new_Int16Array_def Let_def
          d_def [symmetric] L_def [symmetric] L [symmetric] del: of_nat_div)
  qed
qed

lemma obligatory_ranges:
  "0 < maxChannels ctx" "\<not> maxChannels ctx < 2" "\<not> 24000 < minRate ctx" "\<not> maxRate ctx < 24000"
  by (simp_all add: maxChannels_def minRate_def maxRate_def)

subsection \<open>The message handler\<close>

lemma duration_nonneg: "0 \<le> duration b"
  by (simp add: duration_def)

lemma handle_transcriptions_playback:
  "started (handle_transcriptions m s) = started s"
  "nextStartTimeRef (handle_transcriptions m s) = nextStartTimeRef s"
  "scheduledSourcesRef (handle_transcriptions m s) = scheduledSourcesRef s"
  "stopped (handle_transcriptions m s) = stopped s"
  "audioContextRef (handle_transcriptions m s) = audioContextRef s"
  "nextId (handle_transcriptions m s) = nextId s"
  by (simp_all add: handle_transcriptions_def handleLiveTranscript_def Let_def split: option.splits)

lemma handle_transcriptions_history:
  "chatHistory (handle_transcriptions m s) = chatHistory s @ fragments m"
  by (simp add: handle_transcriptions_def handleLiveTranscript_def fragments_def Let_def
      split: option.splits)

lemma schedule_audio_Inr:
  assumes "schedule_audio audio ctx t s = Inr s'"
  shows "\<exists>d. 0 \<le> d \<and>
           started s' = started s @ [\<lparr>sourceNode = nextId s, startTime = max t (nextStartTimeRef s),
                                        bufferDuration = d\<rparr>] \<and>
           nextStartTimeRef s' = max t (nextStartTimeRef s) + d \<and>
           scheduledSourcesRef s' = set_add (nextId s) (scheduledSourcesRef s) \<and>
           stopped s' = stopped s \<and> chatHistory s' = chatHistory s \<and>
           audioContextRef s' = audioContextRef s"
  using assms
  by (auto simp: schedule_audio_def Let_def duration_nonneg split: sum.splits)

lemma onmessage_history:
  "chatHistory (snd (onmessage m t s)) = chatHistory s @ fragments m"
  by (auto simp: onmessage_def Let_def handle_transcriptions_history handle_interruption_def
      dest!: schedule_audio_Inr split: sum.splits option.splits)

lemma onmessage_schedule:
  assumes "\<not> interrupted m"
  shows "(started (snd (onmessage m t s)) = started s \<and>
          nextStartTimeRef (snd (onmessage m t s)) = nextStartTimeRef s) \<or>
         (\<exists>p. started (snd (onmessage m t s)) = started s @ [p] \<and>
              startTime p = max t (nextStartTimeRef s) \<and>
              nextStartTimeRef (snd (onmessage m t s)) = startTime p + bufferDuration p \<and>
              0 \<le> bufferDuration p)"
proof (cases "audioData m")
  case None
  then show ?thesis using assms
    by (simp add: onmessage_def Let_def handle_interruption_def handle_transcriptions_playback)
next
  case (Some audio)
  let ?s1 = "handle_transcriptions m s"
  show ?thesis
  proof (cases "audio \<noteq> [] \<and> audioContextRef ?s1 \<noteq> None")
    case False
    then show ?thesis using assms Some
      by (auto simp: onmessage_def Let_def handle_interruption_def handle_transcriptions_playback
          split: option.splits)
  next
    case ready: True
    then obtain ctx where ctx: "audioContextRef ?s1 = Some ctx" by auto
    note True = ready ctx
    show ?thesis
    proof (cases "schedule_audio audio ctx t ?s1")
      case (Inl e)
      then show ?thesis using assms Some True
        by (simp add: onmessage_def Let_def handle_transcriptions_playback)
    next
      case (Inr s2)
      from schedule_audio_Inr [OF Inr] obtain d where d: "0 \<le> d"
        "started s2 = started ?s1 @ [\<lparr>sourceNode = nextId ?s1,
            startTime = max t (nextStartTimeRef ?s1), bufferDuration = d\<rparr>]"
        "nextStartTimeRef s2 = max t (nextStartTimeRef ?s1) + d"
        by blast
      have "snd (onmessage m t s) = s2"
        using assms Some True Inr by (simp add: onmessage_def Let_def handle_interruption_def)
      then show ?thesis using d
        by (simp add: handle_transcriptions_playback)
    qed
  qed
qed

lemma connect_playback:
  "started (connect e s) = started s" "nextStartTimeRef (connect e s) = nextStartTimeRef s"
  "chatHistory (connect e s) = chatHistory s"
  by (simp_all add: connect_def connect_try_def Let_def)

lemma fire_schedule:
  assumes "no_reset e"
  shows "(started (fire e s) = started s \<and> nextStartTimeRef (fire e s) = nextStartTimeRef s) \<or>
         (\<exists>p. started (fire e s) = started s @ [p] \<and>
              nextStartTimeRef s \<le> startTime p \<and>
              nextStartTimeRef (fire e s) = startTime p + bufferDuration p \<and>
              0 \<le> bufferDuration p)"
proof (cases e)
  case (Message m t)
  with assms have "\<not> interrupted m" by simp
  from onmessage_schedule [OF this, of t s] show ?thesis
    unfolding Message by auto
qed (use assms in \<open>simp_all add: connect_playback\<close>)

lemma run_snoc: "run (evs @ [e]) s = fire e (run evs s)"
  by (simp add: run_def)

lemma run_no_reset:
  assumes "\<forall>e\<in>set evs. no_reset e"
  shows "\<exists>new. started (run evs s) = started s @ new \<and>
           nextStartTimeRef s \<le> nextStartTimeRef (run evs s) \<and>
           (\<forall>q\<in>set new. startTime q + bufferDuration q \<le> nextStartTimeRef (run evs s))"
  using assms
proof (induction evs rule: rev_induct)
  case Nil
  then show ?case by (simp add: run_def)
next
  case (snoc e evs)
  then obtain new where new: "started (run evs s) = started s @ new"
    "nextStartTimeRef s \<le> nextStartTimeRef (run evs s)"
    "\<forall>q\<in>set new. startTime q + bufferDuration q \<le> nextStartTimeRef (run evs s)"
    by auto
  from snoc.prems have "no_reset e" by simp
  from fire_schedule [OF this, of "run evs s"] show ?case
  proof
    assume "started (fire e (run evs s)) = started (run evs s) \<and>
            nextStartTimeRef (fire e (run evs s)) = nextStartTimeRef (run evs s)"
    with new show ?thesis by (auto simp: run_snoc)
  next
    assume "\<exists>p. started (fire e (run evs s)) = started (run evs s) @ [p] \<and>
              nextStartTimeRef (run evs s) \<le> startTime p \<and>
              nextStartTimeRef (fire e (run evs s)) = startTime p + bufferDuration p \<and>
              0 \<le> bufferDuration p"
    then obtain p where p: "started (fire e (run evs s)) = started (run evs s) @ [p]"
      "nextStartTimeRef (run evs s) \<le> startTime p"
      "nextStartTimeRef (fire e (run evs s)) = startTime p + bufferDuration p"
      "0 \<le> bufferDuration p" by blast
    have "\<forall>q\<in>set (new @ [p]). startTime q + bufferDuration q \<le> startTime p + bufferDuration p"
      using new(3) p(2,4) by fastforce
    moreover have "started (fire e (run evs s)) = started s @ (new @ [p])"
      using new(1) p(1) by simp
    moreover have "nextStartTimeRef s \<le> startTime p + bufferDuration p"
      using new(2) p(2,4) by linarith
    ultimately show ?thesis unfolding run_snoc p(3) by blast
  qed
qed


subsection \<open>A payload of three silent samples\<close>

lemma atob_zeros: "atob ''AAAAAAAA'' = Inr [0, 0, 0, 0, 0, 0]"
  by code_simp

lemma decode_zeros:
  "decodeAudioData (whole [0, 0, 0, 0, 0, 0]) ctx 24000 1
     = Inr \<lparr>numberOfChannels = 1, frameLength = 3, sampleRate = 24000, channelData = [ [0, 0, 0] ]\<rparr>"
  by (simp add: decodeAudioData_eq obligatory_ranges int16_of_bytes_def upt_rec)

lemma schedule_zeros:
  "schedule_audio ''AAAAAAAA'' ctx t s =
     Inr (s\<lparr>nextId := Suc (nextId s),
            started := started s @ [\<lparr>sourceNode = nextId s, startTime = max t (nextStartTimeRef s),
                                      bufferDuration = 1 / 8000\<rparr>],
            nextStartTimeRef := max t (nextStartTimeRef s) + 1 / 8000,
            scheduledSourcesRef := set_add (nextId s) (scheduledSourcesRef s)\<rparr>)"
  by (simp add: schedule_audio_def decodeBase64_eq atob_zeros decode_zeros duration_def Let_def
      del: One_nat_def)

lemma onmessage_zeros:
  "audioContextRef s \<noteq> None \<Longrightarrow>
   onmessage (silent\<lparr>audioData := Some ''AAAAAAAA''\<rparr>) t s =
     (None, s\<lparr>nextId := Suc (nextId s),
            started := started s @ [\<lparr>sourceNode = nextId s, startTime = max t (nextStartTimeRef s),
                                      bufferDuration = 1 / 8000\<rparr>],
            nextStartTimeRef := max t (nextStartTimeRef s) + 1 / 8000,
            scheduledSourcesRef := set_add (nextId s) (scheduledSourcesRef s)\<rparr>)"
  by (auto simp: onmessage_def silent_def handle_transcriptions_def handle_interruption_def
      schedule_zeros Let_def)


subsection \<open>Further facts used below\<close>

lemma store_index_in_range: "i < L div n \<Longrightarrow> c < n \<Longrightarrow> i * n + c < (L::nat)"
proof -
  assume "i < L div n" "c < n"
  then have "Suc i \<le> L div n" by simp
  then have "Suc i * n \<le> L div n * n" by (rule mult_le_mono1)
  also have "\<dots> \<le> L" by simp
  finally show ?thesis using \<open>c < n\<close> by simp
qed

lemma atob_invalid: "atob ''A'' = Inl InvalidCharacterError"
  by code_simp

lemma pcm16_examples:
  "pcm16 1 = 32767" "pcm16 (- 1) = - 32768" "pcm16 (1 / 2) = 16383" "pcm16 (- (1 / 2)) = - 16384"
  "pcm16 (65535 / 65536) = 32766" "pcm16 0 = 0" "pcm16 2 = 32767"
  by code_simp+

lemma quant_bound_neg:
  assumes "- 1 \<le> x" "x < 0"
  shows "\<bar>of_int (sint (pcm16 x)) / 32768 - x\<bar> < 1 / 32768"
proof -
  have cx: "clamp x = x" using assms by (simp add: clamp_def)
  have "of_int \<lceil>x * 32768\<rceil> - x * 32768 < (1::rat)" "x * 32768 \<le> of_int \<lceil>x * 32768\<rceil>"
    by linarith+
  then have "\<bar>of_int \<lceil>x * 32768\<rceil> / 32768 - x\<bar> < 1 / 32768"
    by (simp add: field_simps abs_less_iff)
  with assms cx show ?thesis by (simp add: sint_pcm16)
qed

lemma disconnect_fields:
  "sessionRef (disconnect s) = None" "inputSourceRef (disconnect s) = None"
  "processorRef (disconnect s) = None" "audioContextRef (disconnect s) = None"
  "scheduledSourcesRef (disconnect s) = []" "nextStartTimeRef (disconnect s) = 0"
  "\<not> isConnected (disconnect s)"
  by (simp_all add: disconnect_def Let_def split: option.splits)

lemma disconnect_torn_down:
  assumes "sessionRef s = None" "inputSourceRef s = None" "processorRef s = None"
    "audioContextRef s = None" "scheduledSourcesRef s = []" "nextStartTimeRef s = 0"
    "\<not> isConnected s"
  shows "disconnect s = s"
  using assms by (simp add: disconnect_def Let_def)

lemma callback_after_teardown:
  assumes "is_callback e" "audioContextRef s = None" "scheduledSourcesRef s = []"
    "nextStartTimeRef s = 0"
  shows "audioContextRef (fire e s) = None \<and> scheduledSourcesRef (fire e s) = [] \<and>
         nextStartTimeRef (fire e s) = 0 \<and> started (fire e s) = started s \<and>
         stopped (fire e s) = stopped s"
proof (cases e)
  case (Message m t)
  then show ?thesis using assms
    by (simp add: onmessage_def Let_def handle_interruption_def handle_transcriptions_playback
        split: option.splits)
qed (use assms in \<open>simp_all add: set_delete_def\<close>)

lemma fire_history: "chatHistory (fire e s) = chatHistory s @ event_fragments e"
  by (cases e) (simp_all add: onmessage_history connect_playback disconnect_def Let_def
      split: option.splits)

lemma run_history: "chatHistory (run evs s) = chatHistory s @ concat (map event_fragments evs)"
  by (induction evs rule: rev_induct) (simp_all add: run_def fire_history)

section \<open>The claims\<close>

subsection \<open>C1: the scheduling invariant\<close>

text \<open>
  C1. Take any run of events from any state in which no event resets the output clock
  offset (no message carries the interruption flag, \<^verbatim>\<open>disconnect\<close> is not called), followed
  by one more inbound message without the interruption flag, handled at clock reading
  \<open>now\<close>. Then \<open>nextStartTimeRef\<close> has not decreased over the run and does not decrease in
  the last step; the log of started sources only grows; and every source the last
  message starts has start time \<open>max now nextStartTimeRef\<close>, advances \<open>nextStartTimeRef\<close> to
  its start time plus its duration, and starts no earlier than the start time plus the
  duration of every source started earlier in the run. So the buffers scheduled between
  two resets never overlap.
\<close>

theorem scheduling_invariant:
  assumes "\<forall>e\<in>set evs. no_reset e" and "\<not> interrupted m"
  shows "nextStartTimeRef s \<le> nextStartTimeRef (run evs s) \<and>
         nextStartTimeRef (run evs s) \<le> nextStartTimeRef (snd (onmessage m now (run evs s))) \<and>
         started (snd (onmessage m now (run evs s)))
           = started s @ newly s (run evs s) @ newly (run evs s) (snd (onmessage m now (run evs s))) \<and>
         (\<forall>p\<in>set (newly (run evs s) (snd (onmessage m now (run evs s)))).
            startTime p = max now (nextStartTimeRef (run evs s)) \<and>
            nextStartTimeRef (snd (onmessage m now (run evs s))) = startTime p + bufferDuration p \<and>
            (\<forall>q\<in>set (newly s (run evs s)). startTime q + bufferDuration q \<le> startTime p))"
proof -
  let ?s1 = "run evs s"
  let ?s2 = "snd (onmessage m now ?s1)"
  from run_no_reset [OF assms(1), of s] obtain new where new: "started ?s1 = started s @ new"
    "nextStartTimeRef s \<le> nextStartTimeRef ?s1"
    "\<forall>q\<in>set new. startTime q + bufferDuration q \<le> nextStartTimeRef ?s1"
    by blast
  then have n1: "newly s ?s1 = new" by (simp add: newly_def)
  from onmessage_schedule [OF assms(2), of now ?s1] show ?thesis
  proof
    assume "started ?s2 = started ?s1 \<and> nextStartTimeRef ?s2 = nextStartTimeRef ?s1"
    then show ?thesis using new n1 by (simp add: newly_def)
  next
    assume "\<exists>p. started ?s2 = started ?s1 @ [p] \<and> startTime p = max now (nextStartTimeRef ?s1) \<and>
              nextStartTimeRef ?s2 = startTime p + bufferDuration p \<and> 0 \<le> bufferDuration p"
    then obtain p where p: "started ?s2 = started ?s1 @ [p]"
      "startTime p = max now (nextStartTimeRef ?s1)"
      "nextStartTimeRef ?s2 = startTime p + bufferDuration p" "0 \<le> bufferDuration p"
      by blast
    then have n2: "newly ?s1 ?s2 = [p]" by (simp add: newly_def)
    have "\<forall>q\<in>set new. startTime q + bufferDuration q \<le> startTime p"
      using new(3) p(2) by fastforce
    moreover have "nextStartTimeRef ?s1 \<le> startTime p + bufferDuration p"
      using p(2,4) by linarith
    ultimately show ?thesis using new(1,2) p n1 n2 by simp
  qed
qed

text \<open>
  Two payloads of three samples each (an eighth of a millisecond at 24 kHz), the second
  handled while the first is still playing: it is chained to the end of the first.
\<close>

theorem scheduling_invariant_witness:
  "nextStartTimeRef (initial_state\<lparr>audioContextRef := Some (plain_context 0)\<rparr>)
     \<le> nextStartTimeRef (run [Message (silent\<lparr>audioData := Some ''AAAAAAAA''\<rparr>) 0]
          (initial_state\<lparr>audioContextRef := Some (plain_context 0)\<rparr>)) \<and>
   started (snd (onmessage (silent\<lparr>audioData := Some ''AAAAAAAA''\<rparr>) (1 / 16000)
            (run [Message (silent\<lparr>audioData := Some ''AAAAAAAA''\<rparr>) 0]
               (initial_state\<lparr>audioContextRef := Some (plain_context 0)\<rparr>))))
     = [\<lparr>sourceNode = 0, startTime = 0, bufferDuration = 1 / 8000\<rparr>,
        \<lparr>sourceNode = 1, startTime = 1 / 8000, bufferDuration = 1 / 8000\<rparr>]"
proof -
  let ?a = "silent\<lparr>audioData := Some ''AAAAAAAA''\<rparr>"
  let ?s = "initial_state\<lparr>audioContextRef := Some (plain_context 0)\<rparr>"
  have h1: "\<forall>e\<in>set [Message ?a 0]. no_reset e" by (simp add: silent_def)
  have h2: "\<not> interrupted ?a" by (simp add: silent_def)
  have r: "run [Message ?a 0] ?s =
      ?s\<lparr>nextId := 1, started := [\<lparr>sourceNode = 0, startTime = 0, bufferDuration = 1 / 8000\<rparr>],
         nextStartTimeRef := 1 / 8000, scheduledSourcesRef := [0]\<rparr>"
    by (simp add: run_def onmessage_zeros initial_state_def set_add_def)
  have n: "newly (run [Message ?a 0] ?s) (snd (onmessage ?a (1 / 16000) (run [Message ?a 0] ?s)))
      = [\<lparr>sourceNode = 1, startTime = 1 / 8000, bufferDuration = 1 / 8000\<rparr>]"
    unfolding r by (simp add: onmessage_zeros newly_def)
  have m: "newly ?s (run [Message ?a 0] ?s)
      = [\<lparr>sourceNode = 0, startTime = 0, bufferDuration = 1 / 8000\<rparr>]"
    unfolding r by (simp add: newly_def initial_state_def)
  have i: "started ?s = []" by (simp add: initial_state_def)
  from scheduling_invariant [OF h1 h2, of ?s "1 / 16000"] show ?thesis
    unfolding n m i by simp
qed

subsection \<open>C2: interruption\<close>

text \<open>
  When the handler of a message with the interruption flag runs to its end, every source
  of the active set has been stopped, the set is empty and \<open>nextStartTimeRef\<close> is \<open>0\<close>; an
  audio payload scheduled from such a state starts at \<open>max currentTime 0\<close>.
\<close>

lemma interruption_resets:
  assumes "interrupted m" and "fst (onmessage m t s) = None"
  shows "scheduledSourcesRef (snd (onmessage m t s)) = [] \<and>
         nextStartTimeRef (snd (onmessage m t s)) = 0 \<and>
         set (scheduledSourcesRef s) \<subseteq> set (stopped (snd (onmessage m t s)))"
  using assms
  by (auto simp: onmessage_def Let_def handle_interruption_def handle_transcriptions_playback
      set_add_def dest!: schedule_audio_Inr split: sum.splits option.splits if_splits)

lemma schedule_after_reset:
  assumes "nextStartTimeRef s = 0" and "schedule_audio audio ctx t s = Inr s'"
  shows "\<exists>d. started s' = started s @ [\<lparr>sourceNode = nextId s, startTime = max t 0, bufferDuration = d\<rparr>]"
  using schedule_audio_Inr [OF assms(2)] assms(1) by auto

text \<open>
  C2. The claim is that every interruption signal stops and discards the active set and
  resets \<open>nextStartTimeRef\<close> to \<open>0\<close>. The interruption block is the last statement of the
  handler and the audio block before it is not protected: when the same message carries
  an audio payload that does not decode, \<^verbatim>\<open>decodeBase64\<close> throws, the promise of the handler
  is rejected and the interruption block never runs. Here one source is playing
  (started at \<open>0\<close>, lasting \<open>1 / 8000\<close>) when a message arrives with the interruption flag and
  the audio payload \<open>''A''\<close>, which is not valid base64: the handler ends with
  \<open>InvalidCharacterError\<close>, the source is still in the active set, nothing was stopped and
  \<open>nextStartTimeRef\<close> is still \<open>1 / 8000\<close>.
\<close>

theorem interruption_lost_on_decode_error:
  "onmessage (silent\<lparr>audioData := Some ''A'', interrupted := True\<rparr>) 1
     (snd (onmessage (silent\<lparr>audioData := Some ''AAAAAAAA''\<rparr>) 0
        (initial_state\<lparr>audioContextRef := Some (plain_context 0)\<rparr>)))
   = (Some InvalidCharacterError,
      initial_state\<lparr>audioContextRef := Some (plain_context 0), nextId := 1,
        started := [\<lparr>sourceNode = 0, startTime = 0, bufferDuration = 1 / 8000\<rparr>],
        nextStartTimeRef := 1 / 8000, scheduledSourcesRef := [0]\<rparr>)"
proof -
  have playing: "snd (onmessage (silent\<lparr>audioData := Some ''AAAAAAAA''\<rparr>) 0
        (initial_state\<lparr>audioContextRef := Some (plain_context 0)\<rparr>))
      = initial_state\<lparr>audioContextRef := Some (plain_context 0), nextId := 1,
        started := [\<lparr>sourceNode = 0, startTime = 0, bufferDuration = 1 / 8000\<rparr>],
        nextStartTimeRef := 1 / 8000, scheduledSourcesRef := [0]\<rparr>"
    by (simp add: onmessage_zeros initial_state_def set_add_def)
  show ?thesis
    unfolding playing
    by (simp add: initial_state_def onmessage_def silent_def handle_transcriptions_def
        schedule_audio_def decodeBase64_eq atob_invalid Let_def)
qed

subsection \<open>C3: the transport encoder\<close>

text \<open>
  C3. For every array of (finite) samples, \<^verbatim>\<open>float32ToBase64\<close> is the base64 text of the
  bytes obtained by writing, for each sample in order, the low byte and then the high
  byte of its 16-bit value, and \<^verbatim>\<open>atob\<close> gives these bytes back. The 16-bit value of a
  sample \<open>x\<close> is computed from \<open>x\<close> clamped to \<open>[-1, 1]\<close>: a negative clamped sample \<open>s\<close>
  gives \<open>s * 32768\<close>, a non-negative one \<open>s * 32767\<close>, truncated towards zero, and the
  conversion to 16 bits never wraps around. The encoder is a function of its argument
  alone.
\<close>

theorem float32ToBase64_encoding:
  "float32ToBase64 data
     = btoa (concat (map (\<lambda>x. [ucast (pcm16 x), ucast (drop_bit 8 (pcm16 x))]) data)) \<and>
   atob (float32ToBase64 data)
     = Inr (concat (map (\<lambda>x. [ucast (pcm16 x), ucast (drop_bit 8 (pcm16 x))]) data)) \<and>
   (\<forall>x. clamp x = (if x < - 1 then - 1 else if 1 < x then 1 else x) \<and>
        sint (pcm16 x) = (if clamp x < 0 then \<lceil>clamp x * 32768\<rceil> else \<lfloor>clamp x * 32767\<rfloor>) \<and>
        int16_of_bytes (ucast (pcm16 x)) (ucast (drop_bit 8 (pcm16 x))) = pcm16 x)"
proof -
  have "float32ToBase64 data
      = btoa (concat (map (\<lambda>x. [ucast (pcm16 x), ucast (drop_bit 8 (pcm16 x))]) data))"
    by (simp add: float32ToBase64_eq int16_bytes_def)
  moreover have "\<And>x. clamp x = (if x < - 1 then - 1 else if 1 < x then 1 else x)"
    by (simp add: clamp_def)
  ultimately show ?thesis
    by (simp add: atob_btoa sint_pcm16 int16_of_bytes_inverse)
qed

text \<open>
  The samples \<open>1\<close>, \<open>-1\<close> and \<open>1 / 2\<close> become \<open>32767\<close>, \<open>-32768\<close> and \<open>16383\<close>, that is the
  bytes \<open>FF 7F 00 80 FF 3F\<close>.
\<close>

theorem float32ToBase64_encoding_witness:
  "float32ToBase64 [1, - 1, 1 / 2] = ''/38AgP8/'' \<and>
   atob ''/38AgP8/'' = Inr [255, 127, 0, 128, 255, 63] \<and>
   sint (pcm16 (- (1 / 2))) = - 16384 \<and> clamp 2 = 1"
proof -
  note t = float32ToBase64_encoding [of "[1, - 1, 1 / 2]"]
  have bytes: "concat (map (\<lambda>x. [ucast (pcm16 x), ucast (drop_bit 8 (pcm16 x))]) [1, - 1, 1 / 2])
      = [255, 127, 0, 128, 255, 63 :: byte]"
    by (simp add: pcm16_examples)
  have b: "btoa [255, 127, 0, 128, 255, 63] = ''/38AgP8/''"
    by (simp add: base64_char_def base64_alphabet_def)
  from t have e: "float32ToBase64 [1, - 1, 1 / 2] = ''/38AgP8/''"
    unfolding bytes b by (rule conjunct1)
  from t have "atob (float32ToBase64 [1, - 1, 1 / 2]) = Inr [255, 127, 0, 128, 255, 63]"
    unfolding bytes by (elim conjE)
  then have d: "atob ''/38AgP8/'' = Inr [255, 127, 0, 128, 255, 63]"
    unfolding e .
  from t have "sint (pcm16 (- (1 / 2))) = (if clamp (- (1 / 2)) < 0
      then \<lceil>clamp (- (1 / 2)) * 32768\<rceil> else \<lfloor>clamp (- (1 / 2)) * 32767\<rfloor>)"
    by blast
  then have p: "sint (pcm16 (- (1 / 2))) = - 16384"
    by (simp add: clamp_def)
  from t have "clamp 2 = (if (2::rat) < - 1 then - 1 else if (1::rat) < 2 then 1 else 2)"
    by blast
  then have c: "clamp 2 = 1" by simp
  from e d p c show ?thesis by simp
qed

subsection \<open>C4: the round trip through the transport encoding\<close>

text \<open>
  C4, as stated, fails in two places. The sample \<open>65535 / 65536\<close> is encoded as
  \<open>32766\<close> (\<open>65535 / 65536 * 32767\<close> is \<open>32766.5...\<close>, truncated) and decoded as
  \<open>32766 / 32768\<close>, which is \<open>1.5 / 32768\<close> away from it: more than one quantization
  step. And the encoding of the empty array decodes to no bytes, for which
  \<^verbatim>\<open>createBuffer\<close> is asked for a buffer of length \<open>0\<close> and throws, on every platform.
\<close>

theorem round_trip_counterexample:
  "\<not> \<bar>of_int (sint (pcm16 (65535 / 65536))) / 32768 - 65535 / 65536\<bar> \<le> (1 / 32768 :: rat) \<and>
   - 1 \<le> (65535 / 65536 :: rat) \<and> (65535 / 65536 :: rat) \<le> 1 \<and>
   decodeBase64 (float32ToBase64 []) = Inr (whole []) \<and>
   decodeAudioData (whole []) (plain_context 0) 24000 1 = Inl NotSupportedError"
  by (simp add: pcm16_examples decodeBase64_eq float32ToBase64_eq atob_btoa [of "[]", simplified]
      decodeAudioData_eq)

text \<open>
  C4, amended. For every non-empty array of samples (of fewer than \<open>2 ^ 31\<close> samples),
  decoding the transport encoding gives back the bytes of the 16-bit samples, in an
  array that covers its buffer, and the playback buffer made from them at 24 kHz mono,
  in any audio context, has one channel and as many frames as the array has
  samples, each the 16-bit value divided by \<open>32768\<close>. For every sample in \<open>[-1, 1]\<close> the
  recovered value is less than two quantization steps (\<open>2 / 32768\<close>) away from the
  original, and less than one step when the sample is negative.
\<close>

theorem transport_round_trip:
  assumes "data \<noteq> []" and "length data < 2 ^ 31"
  shows "decodeBase64 (float32ToBase64 data)
           = Inr (whole (concat (map (\<lambda>x. int16_bytes (pcm16 x)) data))) \<and>
         decodeAudioData (whole (concat (map (\<lambda>x. int16_bytes (pcm16 x)) data))) ctx 24000 1
           = Inr \<lparr>numberOfChannels = 1, frameLength = length data, sampleRate = 24000,
                  channelData = [map (\<lambda>x. of_int (sint (pcm16 x)) / 32768) data]\<rparr> \<and>
         (\<forall>x. - 1 \<le> x \<and> x \<le> 1 \<longrightarrow> \<bar>of_int (sint (pcm16 x)) / 32768 - x\<bar> < 2 / 32768) \<and>
         (\<forall>x. - 1 \<le> x \<and> x < 0 \<longrightarrow> \<bar>of_int (sint (pcm16 x)) / 32768 - x\<bar> < 1 / 32768)"
proof -
  let ?B = "concat (map (\<lambda>x. int16_bytes (pcm16 x)) data)"
  have len: "length ?B = 2 * length data"
    using length_int16_bytes [of "map pcm16 data"] by (simp add: comp_def)
  then have lt: "length ?B < 2 ^ 32" using assms(2) by simp
  have view: "int16_view ?B = map pcm16 data"
    using int16_view_bytes [of "map pcm16 data"] by (simp add: comp_def)
  have "map (\<lambda>i. of_int (sint (map pcm16 data ! i)) / 32768) [0..<length data]
      = map (\<lambda>x. of_int (sint (pcm16 x)) / (32768::rat)) data"
    by (rule nth_equalityI) simp_all
  moreover have lt': "length (arrayBuffer (whole ?B)) < 2 ^ 32"
    using lt by simp
  ultimately have "decodeAudioData (whole ?B) ctx 24000 1
      = Inr \<lparr>numberOfChannels = 1, frameLength = length data, sampleRate = 24000,
             channelData = [map (\<lambda>x. of_int (sint (pcm16 x)) / 32768) data]\<rparr>"
    using assms(1)
    by (simp add: decodeAudioData_eq [OF lt'] obligatory_ranges len view)
  moreover have "decodeBase64 (float32ToBase64 data) = Inr (whole ?B)"
    by (simp add: decodeBase64_eq float32ToBase64_eq atob_btoa)
  ultimately show ?thesis
    using quant_bound quant_bound_neg by simp
qed

theorem transport_round_trip_witness:
  "decodeBase64 (float32ToBase64 [1, - 1, 1 / 2]) = Inr (whole [255, 127, 0, 128, 255, 63]) \<and>
   decodeAudioData (whole [255, 127, 0, 128, 255, 63]) (plain_context 0) 24000 1
     = Inr \<lparr>numberOfChannels = 1, frameLength = 3, sampleRate = 24000,
            channelData = [ [32767 / 32768, - 1, 16383 / 32768] ]\<rparr> \<and>
   \<bar>32767 / 32768 - (1::rat)\<bar> < 2 / 32768"
proof -
  have h1: "[1, - 1, 1 / 2 :: rat] \<noteq> []" by simp
  have h2: "length [1, - 1, 1 / 2 :: rat] < 2 ^ 31" by simp
  have bytes: "concat (map (\<lambda>x. int16_bytes (pcm16 x)) [1, - 1, 1 / 2])
      = [255, 127, 0, 128, 255, 63 :: byte]"
    by (simp add: pcm16_examples int16_bytes_def)
  have samples: "map (\<lambda>x. of_int (sint (pcm16 x)) / 32768) [1, - 1, 1 / 2]
      = [32767 / 32768, - 1, 16383 / 32768 :: rat]"
    by (simp add: pcm16_examples)
  have len: "length [1, - 1, 1 / 2 :: rat] = 3" by simp
  note t = transport_round_trip [OF h1 h2, of "plain_context 0", unfolded bytes samples len]
  from t have a: "decodeBase64 (float32ToBase64 [1, - 1, 1 / 2])
      = Inr (whole [255, 127, 0, 128, 255, 63])"
    by (rule conjunct1)
  from t have b: "decodeAudioData (whole [255, 127, 0, 128, 255, 63]) (plain_context 0) 24000 1
     = Inr \<lparr>numberOfChannels = 1, frameLength = 3, sampleRate = 24000,
            channelData = [ [32767 / 32768, - 1, 16383 / 32768] ]\<rparr>"
    by (elim conjE)
  have x: "- 1 \<le> (1::rat) \<and> (1::rat) \<le> 1" by simp
  from t have "\<bar>of_int (sint (pcm16 1)) / 32768 - (1::rat)\<bar> < 2 / 32768"
    using x by blast
  then have c: "\<bar>32767 / 32768 - (1::rat)\<bar> < 2 / 32768" by (simp add: pcm16_examples)
  from a b c show ?thesis by blast
qed

subsection \<open>C5: connecting without a credential\<close>

text \<open>
  C5. When no API key is configured, the body of \<^verbatim>\<open>connect\<close> throws the error
  "API Key not found"; \<^verbatim>\<open>connect\<close> catches it, so nothing is thrown to the caller, and
  returns with the error flag set and \<open>isConnected\<close> false. No session, input source or
  processor has been created, so no callback of this call can open the connection.
\<close>

theorem connect_without_credential:
  assumes "getApiKey e = None"
  shows "fst (connect_try e s) = Some ApiKeyNotFound \<and>
         isError (connect e s) \<and> \<not> isConnected (connect e s) \<and>
         sessionRef (connect e s) = sessionRef s \<and>
         inputSourceRef (connect e s) = inputSourceRef s \<and>
         processorRef (connect e s) = processorRef s"
  using assms by (simp add: connect_def connect_try_def Let_def)

theorem connect_without_credential_witness:
  "getApiKey \<lparr>viteApiKey = Some [], processApiKey = None, microphone = True,
       platformLimits = \<lparr>extraChannels = 0, ratesBelow = 0, ratesAbove = 0\<rparr>\<rparr> = None \<and>
   isError (connect \<lparr>viteApiKey = Some [], processApiKey = None, microphone = True,
       platformLimits = \<lparr>extraChannels = 0, ratesBelow = 0, ratesAbove = 0\<rparr>\<rparr>
              (initial_state\<lparr>isConnected := True\<rparr>)) \<and>
   \<not> isConnected (connect \<lparr>viteApiKey = Some [], processApiKey = None, microphone = True,
       platformLimits = \<lparr>extraChannels = 0, ratesBelow = 0, ratesAbove = 0\<rparr>\<rparr>
                     (initial_state\<lparr>isConnected := True\<rparr>))"
proof -
  have h: "getApiKey \<lparr>viteApiKey = Some [], processApiKey = None, microphone = True,
       platformLimits = \<lparr>extraChannels = 0, ratesBelow = 0, ratesAbove = 0\<rparr>\<rparr> = None"
    by (simp add: getApiKey_def)
  from connect_without_credential [OF h, of "initial_state\<lparr>isConnected := True\<rparr>"] h
  show ?thesis by blast
qed

subsection \<open>C6: the playback decoder\<close>

text \<open>
  C6, as stated, fails, on every platform. Six bytes are three 16-bit samples, which is
  not a whole number of two-channel frames (frame size \<open>2 * 2\<close> bytes), and
  \<^verbatim>\<open>decodeAudioData\<close> does not fail on them: it returns a buffer of one frame and drops the
  third sample. With one channel (frame size \<open>2\<close>), an input of three bytes that is a
  window on a buffer of four bytes is not a whole number of frames either, and is
  decoded without failure, to the two samples of the buffer under it. In the other
  direction, no bytes at all are a whole number of frames, and the decoder fails on
  them, in \<^verbatim>\<open>createBuffer\<close>.
\<close>

theorem partial_frame_counterexample:
  "decodeAudioData (whole [1, 0, 2, 0, 3, 0]) (plain_context 0) 24000 2
     = Inr \<lparr>numberOfChannels = 2, frameLength = 1, sampleRate = 24000,
            channelData = [ [1 / 32768], [2 / 32768] ]\<rparr> \<and>
   byteLength (whole [1, 0, 2, 0, 3, 0]) mod (2 * 2) \<noteq> 0 \<and>
   decodeAudioData \<lparr>arrayBuffer = [1, 0, 2, 0], byteOffset = 0, byteLength = 3\<rparr>
       (plain_context 0) 24000 1
     = Inr \<lparr>numberOfChannels = 1, frameLength = 2, sampleRate = 24000,
            channelData = [ [1 / 32768, 2 / 32768] ]\<rparr> \<and>
   byteLength \<lparr>arrayBuffer = [1, 0, 2, 0 :: byte], byteOffset = 0, byteLength = 3\<rparr> mod (2 * 1) \<noteq> 0 \<and>
   decodeAudioData (whole []) (plain_context 0) 24000 1 = Inl NotSupportedError \<and>
   byteLength (whole []) mod (2 * 1) = 0"
  by (simp add: decodeAudioData_eq obligatory_ranges int16_of_bytes_def upt_rec)

text \<open>
  C6, amended. The decoder has no check of the frame size and no error of its own. It
  reads the whole buffer under its input, which for an array that covers its buffer (as
  the result of \<^verbatim>\<open>decodeBase64\<close> does) is the input itself. When that buffer has fewer
  than \<open>2 ^ 32\<close> bytes, the decoder
  \<^item> fails with \<open>RangeError\<close> when the byte length of the buffer is odd (the 16-bit view
    of the buffer cannot be made);
  \<^item> fails with \<open>NotSupportedError\<close> when that length is even and the buffer holds no
    complete frame, or the channel count is zero or above what \<^verbatim>\<open>createBuffer\<close> of the
    platform accepts, or the sample rate is zero or outside what it accepts (every
    platform accepts 1 to 32 channels and 8000 to 96000 Hz);
  \<^item> otherwise succeeds, with as many frames as there are complete frames in the buffer
    (a trailing partial frame is dropped): sample \<open>i\<close> of channel \<open>c\<close> is the little-endian
    16-bit value at sample index \<open>i * n + c\<close>, read as a signed number and divided by
    \<open>32768\<close>.
\<close>

theorem decodeAudioData_cases:
  assumes "length (arrayBuffer data) < 2 ^ 32"
  shows "decodeAudioData data ctx rate n =
    (if odd (length (arrayBuffer data)) then Inl RangeError
     else if n = 0 \<or> maxChannels ctx < n \<or> length (arrayBuffer data) div 2 div n = 0 \<or>
             rate = 0 \<or> rate < minRate ctx \<or> maxRate ctx < rate
       then Inl NotSupportedError
     else Inr \<lparr>numberOfChannels = n, frameLength = length (arrayBuffer data) div 2 div n,
        sampleRate = rate,
        channelData =
          map (\<lambda>c. map (\<lambda>i. of_int (sint (int16_of_bytes
                                             (arrayBuffer data ! (2 * (i * n + c)))
                                             (arrayBuffer data ! (2 * (i * n + c) + 1)))) / 32768)
                      [0..<length (arrayBuffer data) div 2 div n]) [0..<n]\<rparr>)"
proof (cases "odd (length (arrayBuffer data))")
  case True
  then show ?thesis by (simp add: decodeAudioData_eq [OF assms])
next
  case False
  define bs where "bs = arrayBuffer data"
  have "map (\<lambda>c. map (\<lambda>i. of_int (sint (int16_view bs ! (i * n + c))) / (32768::rat))
                   [0..<length bs div 2 div n]) [0..<n]
      = map (\<lambda>c. map (\<lambda>i. of_int (sint (int16_of_bytes (bs ! (2 * (i * n + c)))
                                                        (bs ! (2 * (i * n + c) + 1)))) / 32768)
                      [0..<length bs div 2 div n]) [0..<n]"
  proof (intro map_cong refl)
    fix c i assume "c \<in> set [0..<n]" "i \<in> set [0..<length bs div 2 div n]"
    then have "i * n + c < length bs div 2"
      by (simp add: store_index_in_range)
    then have "2 * (i * n + c) + 1 < length bs" using False unfolding bs_def by presburger
    then show "of_int (sint (int16_view bs ! (i * n + c))) / (32768::rat)
        = of_int (sint (int16_of_bytes (bs ! (2 * (i * n + c))) (bs ! (2 * (i * n + c) + 1)))) / 32768"
      by (simp add: int16_view_nth)
  qed
  then show ?thesis unfolding bs_def by (simp add: decodeAudioData_eq [OF assms])
qed

text \<open>
  Eight bytes in two channels; three bytes; and 192000 Hz, which a platform whose range
  ends at 96000 Hz rejects and one whose range ends at 192000 Hz accepts.
\<close>

theorem decodeAudioData_cases_witness:
  "decodeAudioData (whole [1, 0, 2, 0, 3, 0, 4, 0]) (plain_context 0) 24000 2
     = Inr \<lparr>numberOfChannels = 2, frameLength = 2, sampleRate = 24000,
            channelData = [ [1 / 32768, 3 / 32768], [2 / 32768, 4 / 32768] ]\<rparr> \<and>
   decodeAudioData (whole [1, 0, 2]) (plain_context 0) 24000 1 = Inl RangeError \<and>
   decodeAudioData (whole [1, 0]) (plain_context 0) 192000 1 = Inl NotSupportedError \<and>
   decodeAudioData (whole [1, 0])
       \<lparr>contextId = 0,
        contextLimits = \<lparr>extraChannels = 0, ratesBelow = 0, ratesAbove = 96000\<rparr>\<rparr> 192000 1
     = Inr \<lparr>numberOfChannels = 1, frameLength = 1, sampleRate = 192000,
            channelData = [ [1 / 32768] ]\<rparr>"
proof -
  have h: "length (arrayBuffer (whole [1, 0, 2, 0, 3, 0, 4, 0])) < 2 ^ 32"
    by simp
  have h': "length (arrayBuffer (whole [1, 0, 2])) < 2 ^ 32"
    by simp
  have h'': "length (arrayBuffer (whole [1, 0])) < 2 ^ 32"
    by simp
  from decodeAudioData_cases [OF h, of "plain_context 0" 24000 2]
  have a: "decodeAudioData (whole [1, 0, 2, 0, 3, 0, 4, 0]) (plain_context 0) 24000 2
     = Inr \<lparr>numberOfChannels = 2, frameLength = 2, sampleRate = 24000,
            channelData = [ [1 / 32768, 3 / 32768], [2 / 32768, 4 / 32768] ]\<rparr>"
    by (simp add: obligatory_ranges int16_of_bytes_def upt_rec)
  from decodeAudioData_cases [OF h', of "plain_context 0" 24000 1]
  have b: "decodeAudioData (whole [1, 0, 2]) (plain_context 0) 24000 1 = Inl RangeError"
    by simp
  from decodeAudioData_cases [OF h'', of "plain_context 0" 192000 1]
  have c: "decodeAudioData (whole [1, 0]) (plain_context 0) 192000 1 = Inl NotSupportedError"
    by (simp add: plain_context_def maxRate_def)
  from decodeAudioData_cases [OF h'', of "\<lparr>contextId = 0,
        contextLimits = \<lparr>extraChannels = 0, ratesBelow = 0, ratesAbove = 96000\<rparr>\<rparr>" 192000 1]
  have d: "decodeAudioData (whole [1, 0])
       \<lparr>contextId = 0,
        contextLimits = \<lparr>extraChannels = 0, ratesBelow = 0, ratesAbove = 96000\<rparr>\<rparr> 192000 1
     = Inr \<lparr>numberOfChannels = 1, frameLength = 1, sampleRate = 192000,
            channelData = [ [1 / 32768] ]\<rparr>"
    by (simp add: maxChannels_def minRate_def maxRate_def int16_of_bytes_def upt_rec)
  from a b c d show ?thesis by blast
qed

subsection \<open>C7: callbacks after \<^verbatim>\<open>disconnect\<close>\<close>

text \<open>
  What the teardown does achieve. The playback block of the message handler tests the
  output audio context, and \<^verbatim>\<open>disconnect\<close> clears that reference: after it, and for as long
  as only callbacks run (no new call of \<^verbatim>\<open>connect\<close>), no playback is scheduled. The audio
  context reference stays empty, the active set stays empty, \<open>nextStartTimeRef\<close> stays \<open>0\<close>,
  and no source is started or stopped.
\<close>

lemma no_playback_after_disconnect:
  assumes "\<forall>e\<in>set evs. is_callback e"
  shows "audioContextRef (run evs (disconnect s)) = None \<and>
         scheduledSourcesRef (run evs (disconnect s)) = [] \<and>
         nextStartTimeRef (run evs (disconnect s)) = 0 \<and>
         started (run evs (disconnect s)) = started (disconnect s) \<and>
         stopped (run evs (disconnect s)) = stopped (disconnect s)"
  using assms
proof (induction evs rule: rev_induct)
  case Nil
  then show ?case by (simp add: run_def disconnect_fields)
next
  case (snoc e evs)
  then have "is_callback e" by simp
  from callback_after_teardown [OF this, of "run evs (disconnect s)"] snoc
  show ?case by (simp add: run_snoc)
qed

text \<open>
  C7. The claim is that after \<^verbatim>\<open>disconnect\<close> no callback can fire and change the state of
  the session, every callback being guarded by a check against the current session. The
  code has no such check, and \<^verbatim>\<open>disconnect\<close>, whose first step is commented
  "Close session", only drops its reference to the session: the connection stays open
  and its callbacks keep running on the state that was torn down. Here a session is
  connected, resolved and open, and \<^verbatim>\<open>disconnect\<close> is called: the conversation is empty,
  \<open>isConnected\<close> is false and \<open>sessionRef\<close> is empty. Then
  \<^item> an inbound message with a user transcription is still appended to the conversation;
  \<^item> when \<^verbatim>\<open>disconnect\<close> was called before the connection opened, \<^verbatim>\<open>onopen\<close> fires afterwards
    and sets \<open>isConnected\<close>;
  \<^item> when it was called before \<^verbatim>\<open>sessionPromise\<close> resolved, the resolution stores the session
    in \<open>sessionRef\<close> afterwards.
\<close>

theorem callbacks_fire_after_disconnect:
  "chatHistory (run [Connect \<lparr>viteApiKey = Some ''k'', processApiKey = None, microphone = True,
                              platformLimits = \<lparr>extraChannels = 0, ratesBelow = 0, ratesAbove = 0\<rparr>\<rparr>,
                     SessionResolved 3, Open, Disconnect] initial_state) = [] \<and>
   \<not> isConnected (run [Connect \<lparr>viteApiKey = Some ''k'', processApiKey = None, microphone = True,
                              platformLimits = \<lparr>extraChannels = 0, ratesBelow = 0, ratesAbove = 0\<rparr>\<rparr>,
                     SessionResolved 3, Open, Disconnect] initial_state) \<and>
   sessionRef (run [Connect \<lparr>viteApiKey = Some ''k'', processApiKey = None, microphone = True,
                              platformLimits = \<lparr>extraChannels = 0, ratesBelow = 0, ratesAbove = 0\<rparr>\<rparr>,
                     SessionResolved 3, Open, Disconnect] initial_state) = None \<and>
   chatHistory (run [Connect \<lparr>viteApiKey = Some ''k'', processApiKey = None, microphone = True,
                              platformLimits = \<lparr>extraChannels = 0, ratesBelow = 0, ratesAbove = 0\<rparr>\<rparr>,
                     SessionResolved 3, Open, Disconnect,
                     Message (silent\<lparr>inputTranscription := Some ''hi''\<rparr>) 0] initial_state)
     = [\<lparr>role = User, content = ''hi''\<rparr>] \<and>
   isConnected (run [Connect \<lparr>viteApiKey = Some ''k'', processApiKey = None, microphone = True,
                              platformLimits = \<lparr>extraChannels = 0, ratesBelow = 0, ratesAbove = 0\<rparr>\<rparr>,
                     Disconnect, Open] initial_state) \<and>
   sessionRef (run [Connect \<lparr>viteApiKey = Some ''k'', processApiKey = None, microphone = True,
                              platformLimits = \<lparr>extraChannels = 0, ratesBelow = 0, ratesAbove = 0\<rparr>\<rparr>,
                     Disconnect, SessionResolved 3] initial_state) = Some 3"
proof -
  let ?e = "\<lparr>viteApiKey = Some ''k'', processApiKey = None, microphone = True,
             platformLimits = \<lparr>extraChannels = 0, ratesBelow = 0, ratesAbove = 0\<rparr>\<rparr>"
  have "chatHistory (run [Connect ?e, SessionResolved 3, Open, Disconnect] initial_state) = []"
    by (simp add: run_history initial_state_def)
  moreover have "\<not> isConnected (run [Connect ?e, SessionResolved 3, Open, Disconnect] initial_state)"
    by (simp add: run_def disconnect_fields)
  moreover have "sessionRef (run [Connect ?e, SessionResolved 3, Open, Disconnect] initial_state) = None"
    by (simp add: run_def disconnect_fields)
  moreover have "chatHistory (run [Connect ?e, SessionResolved 3, Open, Disconnect,
        Message (silent\<lparr>inputTranscription := Some ''hi''\<rparr>) 0] initial_state)
      = [\<lparr>role = User, content = ''hi''\<rparr>]"
    by (simp add: run_history fragments_def silent_def initial_state_def)
  moreover have "isConnected (run [Connect ?e, Disconnect, Open] initial_state)"
    by (simp add: run_def)
  moreover have "sessionRef (run [Connect ?e, Disconnect, SessionResolved 3] initial_state) = Some 3"
    by (simp add: run_def)
  ultimately show ?thesis by blast
qed

subsection \<open>C8: \<^verbatim>\<open>disconnect\<close> is idempotent\<close>

text \<open>
  C8. \<^verbatim>\<open>disconnect\<close> is defined on every state and throws nothing. A second call right after
  a first one changes nothing: not the state of the hook, and not the logs of what was
  stopped, disconnected and closed. After a call \<open>isConnected\<close> is false, the references to
  the session, the input source, the processor and the audio context are empty, the
  active set is empty and \<open>nextStartTimeRef\<close> is \<open>0\<close>.
\<close>

theorem disconnect_idempotent:
  "disconnect (disconnect s) = disconnect s \<and> \<not> isConnected (disconnect s) \<and>
   sessionRef (disconnect s) = None \<and> inputSourceRef (disconnect s) = None \<and>
   processorRef (disconnect s) = None \<and> audioContextRef (disconnect s) = None \<and>
   scheduledSourcesRef (disconnect s) = [] \<and> nextStartTimeRef (disconnect s) = 0"
  by (simp add: disconnect_fields disconnect_torn_down)

theorem disconnect_idempotent_witness:
  "disconnect (disconnect (initial_state\<lparr>isConnected := True, audioContextRef := Some (plain_context 0),
       scheduledSourcesRef := [3], nextStartTimeRef := 1\<rparr>))
   = initial_state\<lparr>stopped := [3], closedContexts := [0]\<rparr>"
proof -
  have "disconnect (initial_state\<lparr>isConnected := True, audioContextRef := Some (plain_context 0),
       scheduledSourcesRef := [3], nextStartTimeRef := 1\<rparr>)
     = initial_state\<lparr>stopped := [3], closedContexts := [0]\<rparr>"
    by (simp add: disconnect_def initial_state_def plain_context_def)
  with disconnect_idempotent [of "initial_state\<lparr>isConnected := True, audioContextRef := Some (plain_context 0),
       scheduledSourcesRef := [3], nextStartTimeRef := 1\<rparr>"]
  show ?thesis by simp
qed

subsection \<open>C9: the transcript follows the order of arrival\<close>

text \<open>
  C9. Over any run of events from any state, the conversation is the conversation before
  the run followed by the transcript fragments of the inbound messages, in the order of
  arrival, each one entry tagged with its speaker; nothing else in the run writes to it
  and no entry is merged or dropped, equal or not. (A fragment is a transcription whose
  text is not empty; the handler treats an empty text as absent.) The sink itself,
  \<^verbatim>\<open>handleLiveTranscript\<close>, appends exactly one entry with the given tag for whatever text it
  is given.
\<close>

theorem transcript_in_arrival_order:
  "chatHistory (run evs s) = chatHistory s @ concat (map event_fragments evs) \<and>
   chatHistory (handleLiveTranscript text isUser s)
     = chatHistory s @ [\<lparr>role = (if isUser then User else Model), content = text\<rparr>]"
  by (simp add: run_history handleLiveTranscript_def)

text \<open>
  Fragments tagged user, model, user, the third equal to the first: three entries in
  that order.
\<close>

theorem transcript_in_arrival_order_witness:
  "chatHistory (run [Message (silent\<lparr>inputTranscription := Some ''a''\<rparr>) 0,
                     Message (silent\<lparr>outputTranscription := Some ''b''\<rparr>) 1,
                     Message (silent\<lparr>inputTranscription := Some ''a''\<rparr>) 2] initial_state)
   = [\<lparr>role = User, content = ''a''\<rparr>, \<lparr>role = Model, content = ''b''\<rparr>,
      \<lparr>role = User, content = ''a''\<rparr>]"
  using transcript_in_arrival_order [of
      "[Message (silent\<lparr>inputTranscription := Some ''a''\<rparr>) 0,
        Message (silent\<lparr>outputTranscription := Some ''b''\<rparr>) 1,
        Message (silent\<lparr>inputTranscription := Some ''a''\<rparr>) 2]" initial_state]
  by (simp add: fragments_def silent_def initial_state_def)

subsection \<open>C10: within one message, the user comes first\<close>

text \<open>
  C10. When one inbound message carries both a user transcription and a model
  transcription (both texts not empty), the handler appends the user's entry and then
  the model's, whatever else the message carries and whether or not its audio decodes.
\<close>

theorem user_before_model:
  assumes "inputTranscription m = Some u" "u \<noteq> []"
    and "outputTranscription m = Some v" "v \<noteq> []"
  shows "chatHistory (snd (onmessage m now s))
       = chatHistory s @ [\<lparr>role = User, content = u\<rparr>, \<lparr>role = Model, content = v\<rparr>]"
  using assms by (simp add: onmessage_history fragments_def)

theorem user_before_model_witness:
  "chatHistory (snd (onmessage \<lparr>inputTranscription = Some ''hello'',
       outputTranscription = Some ''hi there'', audioData = Some ''A'', interrupted = True\<rparr> 0
       initial_state))
   = [\<lparr>role = User, content = ''hello''\<rparr>, \<lparr>role = Model, content = ''hi there''\<rparr>]"
proof -
  let ?m = "\<lparr>inputTranscription = Some ''hello'', outputTranscription = Some ''hi there'',
             audioData = Some ''A'', interrupted = True\<rparr>"
  have "inputTranscription ?m = Some ''hello''" "''hello'' \<noteq> []"
    "outputTranscription ?m = Some ''hi there''" "''hi there'' \<noteq> []"
    by simp_all
  from user_before_model [OF this, of 0 initial_state] show ?thesis
    by (simp add: initial_state_def)
qed

end
